theory Spec2Isabelle
  imports
    Complex_Main
    "HOL-Library.Char_ord"
    "HOL-Library.List_Lexorder"
    "HOL-Library.Product_Lexorder"
begin

section \<open>Data model\<close>

text \<open>
  The rating, synergy and matchmaking engine of \<^verbatim>\<open>src/services/autoMatchmaker.ts\<close>,
  over the \<^verbatim>\<open>Player\<close> and \<^verbatim>\<open>Match\<close> interfaces of \<^verbatim>\<open>src/types.ts\<close>.

  Conventions of the embedding:
  \<^item> a JavaScript \<^verbatim>\<open>number\<close> is a \<^typ>\<open>real\<close>: comparisons, \<^verbatim>\<open>Math.abs\<close>, sums and
    products are the exact ones, and \<^verbatim>\<open>NaN\<close> and the infinities are not values;
    \<^verbatim>\<open>Infinity\<close> as the start of a running minimum is the value \<open>None\<close>;
  \<^item> an optional numeric field is a \<^typ>\<open>real option\<close>, and \<^verbatim>\<open>a || b\<close> takes \<open>b\<close> when
    \<open>a\<close> is missing or zero;
  \<^item> identifiers are strings (\<^verbatim>\<open>String(id)\<close> is the identity on them), compared and sorted
    lexicographically by character code, as \<^verbatim>\<open>Array.prototype.sort\<close> does without a
    comparator;
  \<^item> \<^verbatim>\<open>new Date(m.date).getTime()\<close> is the integer field \<open>date\<close>; sorting with a numeric
    comparator is the stable sort by that key;
  \<^item> the teams of a match are lists of identifiers, as the interface declares them, so
    the guard \<^verbatim>\<open>!m.team1 || !m.team2\<close> never fires;
  \<^item> a \<^verbatim>\<open>Map\<close> is a partial function from keys to values; the objects stored in the map
    of player forms are mutated through their key, one object per key;
  \<^item> the values returned by \<^verbatim>\<open>Math.random()\<close> are an explicit list of reals, consumed
    from the left.
\<close>

record Player =
  p_id :: string
  initialPoints :: "real option"
  tournamentRating :: "real option"

record Match =
  date :: int
  team1 :: "string list"
  team2 :: "string list"
  winner :: int

record PlayerForm =
  pf_id :: string
  baseRating :: real
  form :: real
  effectiveRating :: real

record GeneratedPair =
  player1 :: PlayerForm
  player2 :: PlayerForm
  strength :: real
  pair_structure :: real
  cost :: real

text \<open>
  The \<^verbatim>\<open>reason\<close> of a handicap is a fixed text followed by \<^verbatim>\<open>diff.toFixed(2)\<close>; the
  record keeps the number that is printed.
\<close>

record Handicap =
  team :: nat
  points :: nat
  reason :: real

record Analysis =
  team2Synergy :: real
  team2Form :: real
  qualityScore :: real

record GeneratedMatch =
  g_team1 :: GeneratedPair
  g_team2 :: GeneratedPair
  matchCost :: real
  handicap :: "Handicap option"
  analysis :: Analysis

record AutoMatchResult =
  players :: "PlayerForm list"
  pairs :: "GeneratedPair list"
  matches :: "GeneratedMatch list"

text \<open>
  What a call can do: return a value, throw an error with a message, or ask
  \<^verbatim>\<open>Math.random()\<close> for more values than the list holds.
\<close>

datatype 'a outcome = Returned 'a | Threw string | Starved

type_synonym forms = "string \<rightharpoonup> PlayerForm"

type_synonym synergy = "string \<rightharpoonup> real"

section \<open>Configuration constants\<close>

definition D_FACTOR :: real where
  "D_FACTOR = 12 / 10"

definition K_FACTOR :: real where
  "K_FACTOR = 18 / 100"

definition SUPPORT_CUTOFF :: real where
  "SUPPORT_CUTOFF = 26 / 10"

definition TARGET_DIFF :: real where
  "TARGET_DIFF = 14 / 10"

section \<open>Step 1: learning player form\<close>

definition or_num :: "real option \<Rightarrow> real \<Rightarrow> real" where
  "or_num a b = (case a of None \<Rightarrow> b | Some x \<Rightarrow> if x = 0 then b else x)"

definition rawRating :: "Player \<Rightarrow> real" where
  "rawRating p = or_num (tournamentRating p) (or_num (initialPoints p) 0)"

text \<open>\<^verbatim>\<open>rawRating > 20 ? 3.0 : (rawRating || 3.0)\<close>\<close>

definition normalizeRating :: "real \<Rightarrow> real" where
  "normalizeRating raw = (if raw > 20 then 3 else if raw = 0 then 3 else raw)"

definition initForm :: "Player \<Rightarrow> PlayerForm" where
  "initForm p =
     \<lparr>pf_id = p_id p, baseRating = normalizeRating (rawRating p), form = 0,
      effectiveRating = normalizeRating (rawRating p)\<rparr>"

definition initForms :: "Player list \<Rightarrow> forms" where
  "initForms ps = foldl (\<lambda>st p. st(p_id p \<mapsto> initForm p)) Map.empty ps"

text \<open>\<^verbatim>\<open>obj.form += d\<close> on the object stored under key \<open>k\<close>.\<close>

definition addForm :: "forms \<Rightarrow> string \<Rightarrow> real \<Rightarrow> forms" where
  "addForm st k d = (case st k of None \<Rightarrow> st | Some f \<Rightarrow> st(k \<mapsto> f\<lparr>form := form f + d\<rparr>))"

definition expectedT1 :: "real \<Rightarrow> real \<Rightarrow> real" where
  "expectedT1 effT1 effT2 = 1 / (1 + 10 powr ((effT2 - effT1) / D_FACTOR))"

definition matchShare :: "PlayerForm \<Rightarrow> PlayerForm \<Rightarrow> PlayerForm \<Rightarrow> PlayerForm \<Rightarrow> int \<Rightarrow> real" where
  "matchShare t1p1 t1p2 t2p1 t2p2 w =
     (let effT1 = (baseRating t1p1 + form t1p1) + (baseRating t1p2 + form t1p2);
          effT2 = (baseRating t2p1 + form t2p1) + (baseRating t2p2 + form t2p2);
          actualS = (if w = 1 then 1 else 0);
          delta = K_FACTOR * (actualS - expectedT1 effT1 effT2)
      in delta / 2)"

text \<open>The body of \<^verbatim>\<open>sortedMatches.forEach\<close>: one match of the chronological replay.\<close>

definition replayMatch :: "forms \<Rightarrow> Match \<Rightarrow> forms" where
  "replayMatch st m =
     (if length (team1 m) \<noteq> 2 \<or> length (team2 m) \<noteq> 2 then st
      else case st (team1 m ! 0) of None \<Rightarrow> st | Some t1p1 \<Rightarrow>
           case st (team1 m ! 1) of None \<Rightarrow> st | Some t1p2 \<Rightarrow>
           case st (team2 m ! 0) of None \<Rightarrow> st | Some t2p1 \<Rightarrow>
           case st (team2 m ! 1) of None \<Rightarrow> st | Some t2p2 \<Rightarrow>
             (let share = matchShare t1p1 t1p2 t2p1 t2p2 (winner m);
                  st1 = addForm st (team1 m ! 0) share;
                  st2 = addForm st1 (team1 m ! 1) share;
                  st3 = addForm st2 (team2 m ! 0) (- share)
              in addForm st3 (team2 m ! 1) (- share)))"

text \<open>
  \<^verbatim>\<open>Number(x.toFixed(2))\<close>: the nearest multiple of 1/100, a tie going away from zero;
  from \<open>10^21\<close> on \<^verbatim>\<open>toFixed\<close> prints the number itself.
\<close>

definition toFixed2 :: "real \<Rightarrow> real" where
  "toFixed2 x =
     (if \<bar>x\<bar> \<ge> 10 ^ 21 then x
      else if x < 0 then - (of_int \<lfloor>(- x) * 100 + 1 / 2\<rfloor> / 100)
      else of_int \<lfloor>x * 100 + 1 / 2\<rfloor> / 100)"

definition finalizeForm :: "PlayerForm \<Rightarrow> PlayerForm" where
  "finalizeForm p = p\<lparr>effectiveRating := toFixed2 (baseRating p + form p)\<rparr>"

definition replayAll :: "Player list \<Rightarrow> Match list \<Rightarrow> forms" where
  "replayAll ps ms = foldl replayMatch (initForms ps) (sort_key date ms)"

definition calculatePlayerForms :: "Player list \<Rightarrow> Match list \<Rightarrow> forms" where
  "calculatePlayerForms ps ms = (\<lambda>k. map_option finalizeForm (replayAll ps ms k))"

section \<open>Step 2: learning synergy\<close>

record PairStat =
  games :: nat
  wins :: nat

fun join_dash :: "string list \<Rightarrow> string" where
  "join_dash [] = []"
| "join_dash [x] = x"
| "join_dash (x # y # ys) = x @ ''-'' @ join_dash (y # ys)"

definition getPairKey :: "string \<Rightarrow> string \<Rightarrow> string" where
  "getPairKey id1 id2 = join_dash (sort [id1, id2])"

definition bumpPair :: "(string \<rightharpoonup> PairStat) \<Rightarrow> string \<Rightarrow> bool \<Rightarrow> (string \<rightharpoonup> PairStat)" where
  "bumpPair st k won =
     (let s = (case st k of None \<Rightarrow> \<lparr>games = 0, wins = 0\<rparr> | Some s \<Rightarrow> s)
      in st(k \<mapsto> \<lparr>games = games s + 1, wins = (if won then wins s + 1 else wins s)\<rparr>))"

definition countMatch :: "(string \<rightharpoonup> PairStat) \<Rightarrow> Match \<Rightarrow> (string \<rightharpoonup> PairStat)" where
  "countMatch st m =
     (let st1 = (if length (team1 m) = 2
                 then bumpPair st (getPairKey (team1 m ! 0) (team1 m ! 1)) (winner m = 1)
                 else st)
      in if length (team2 m) = 2
         then bumpPair st1 (getPairKey (team2 m ! 0) (team2 m ! 1)) (winner m = 2)
         else st1)"

definition pairStats :: "Match list \<Rightarrow> (string \<rightharpoonup> PairStat)" where
  "pairStats ms = foldl countMatch Map.empty ms"

definition synergyOf :: "PairStat \<Rightarrow> real" where
  "synergyOf stat =
     (let p = (real (wins stat) + 2) / (real (games stat) + 4);
          safeP = max (1 / 100) (min (99 / 100) p)
      in ln (safeP / (1 - safeP)) * (real (games stat) / (real (games stat) + 6)))"

definition calculateSynergyMatrix :: "Match list \<Rightarrow> synergy" where
  "calculateSynergyMatrix ms = (\<lambda>k. map_option synergyOf (pairStats ms k))"

section \<open>Step 3: the pairing cost\<close>

text \<open>\<^verbatim>\<open>synergyMatrix.get(pairKey) || 0\<close>\<close>

definition synergyLookup :: "synergy \<Rightarrow> string \<Rightarrow> real" where
  "synergyLookup synergyMatrix pairKey = or_num (synergyMatrix pairKey) 0"

definition getPairingCost :: "PlayerForm \<Rightarrow> PlayerForm \<Rightarrow> synergy \<Rightarrow> string set \<Rightarrow> real" where
  "getPairingCost p1 p2 synergyMatrix recentPairs =
     (let diff = \<bar>effectiveRating p1 - effectiveRating p2\<bar>;
          c1 = 1 * (diff - TARGET_DIFF) ^ 2;
          c2 = (if diff < 6 / 10 then c1 + 15 / 10 else c1);
          c3 = (if diff > 2 then c2 + 3 else c2);
          c4 = (if effectiveRating p1 < SUPPORT_CUTOFF \<and> effectiveRating p2 < SUPPORT_CUTOFF
                then c3 + 10 else c3);
          pairKey = join_dash (sort [pf_id p1, pf_id p2]);
          syn = synergyLookup synergyMatrix pairKey;
          c5 = (if \<bar>syn\<bar> > 35 / 100 then c4 + \<bar>syn\<bar> * 2 else c4)
      in if pairKey \<in> recentPairs then c5 + 15 else c5)"

section \<open>Step 4: the pairing algorithm\<close>

definition mkPair :: "PlayerForm \<Rightarrow> PlayerForm \<Rightarrow> real \<Rightarrow> GeneratedPair" where
  "mkPair p1 p2 c =
     \<lparr>player1 = p1, player2 = p2,
      strength = effectiveRating p1 + effectiveRating p2,
      pair_structure = \<bar>effectiveRating p1 - effectiveRating p2\<bar>,
      cost = c\<rparr>"

text \<open>
  The inner loop of the greedy phase, over the players after \<open>p1\<close> in the sorted pool;
  the running minimum starts at \<^verbatim>\<open>Infinity\<close> with no partner.
\<close>

fun findPartner ::
  "PlayerForm \<Rightarrow> string set \<Rightarrow> synergy \<Rightarrow> string set \<Rightarrow>
   (PlayerForm \<times> real) option \<Rightarrow> PlayerForm list \<Rightarrow> (PlayerForm \<times> real) option" where
  "findPartner p1 used syn recentPairs best [] = best"
| "findPartner p1 used syn recentPairs best (p2 # rest) =
     (if pf_id p2 \<in> used then findPartner p1 used syn recentPairs best rest
      else let c = getPairingCost p1 p2 syn recentPairs
           in if (case best of None \<Rightarrow> True | Some (bp, minCost) \<Rightarrow> c < minCost)
              then findPartner p1 used syn recentPairs (Some (p2, c)) rest
              else findPartner p1 used syn recentPairs best rest)"

fun greedyPairs ::
  "string set \<Rightarrow> synergy \<Rightarrow> string set \<Rightarrow> PlayerForm list \<Rightarrow> GeneratedPair list" where
  "greedyPairs used syn recentPairs [] = []"
| "greedyPairs used syn recentPairs (p1 # rest) =
     (if pf_id p1 \<in> used then greedyPairs used syn recentPairs rest
      else case findPartner p1 used syn recentPairs None rest of
             None \<Rightarrow> greedyPairs used syn recentPairs rest
           | Some (bestPartner, minCost) \<Rightarrow>
               mkPair p1 bestPartner minCost
                 # greedyPairs (insert (pf_id bestPartner) (insert (pf_id p1) used))
                     syn recentPairs rest)"

definition greedySeed :: "PlayerForm list \<Rightarrow> synergy \<Rightarrow> string set \<Rightarrow> GeneratedPair list" where
  "greedySeed pool syn recentPairs =
     greedyPairs {} syn recentPairs (sort_key effectiveRating pool)"

text \<open>\<^verbatim>\<open>pairs.reduce((sum, p) => sum + p.cost, 0)\<close>\<close>

definition totalCost :: "GeneratedPair list \<Rightarrow> real" where
  "totalCost ps = foldl (\<lambda>sum p. sum + cost p) 0 ps"

text \<open>\<^verbatim>\<open>Math.floor(Math.random() * pairs.length)\<close> for the value \<open>r\<close> of \<^verbatim>\<open>Math.random()\<close>.\<close>

definition randIndex :: "nat \<Rightarrow> real \<Rightarrow> int" where
  "randIndex n r = \<lfloor>r * real n\<rfloor>"

text \<open>\<^verbatim>\<open>while (idx1 === idx2) idx2 = Math.floor(Math.random() * pairs.length)\<close>\<close>

fun redraw :: "nat \<Rightarrow> int \<Rightarrow> int \<Rightarrow> real list \<Rightarrow> (int \<times> real list) option" where
  "redraw n idx1 idx2 [] = (if idx1 = idx2 then None else Some (idx2, []))"
| "redraw n idx1 idx2 (r # rs) =
     (if idx1 = idx2 then redraw n idx1 (randIndex n r) rs else Some (idx2, r # rs))"

text \<open>
  The body of one iteration once both indices are drawn: the swap is applied only when
  the new total is strictly smaller.
\<close>

definition trySwap ::
  "GeneratedPair list \<Rightarrow> real \<Rightarrow> synergy \<Rightarrow> string set \<Rightarrow> nat \<Rightarrow> nat \<Rightarrow>
   GeneratedPair list \<times> real" where
  "trySwap ps currentTotalCost syn recentPairs idx1 idx2 =
     (let pairA = ps ! idx1;
          pairB = ps ! idx2;
          costSwap1 = getPairingCost (player1 pairA) (player2 pairB) syn recentPairs;
          costSwap2 = getPairingCost (player1 pairB) (player2 pairA) syn recentPairs;
          newTotalCost = currentTotalCost - cost pairA - cost pairB + costSwap1 + costSwap2
      in if newTotalCost < currentTotalCost
         then ((ps[idx1 := mkPair (player1 pairA) (player2 pairB) costSwap1])
                 [idx2 := mkPair (player1 pairB) (player2 pairA) costSwap2],
               newTotalCost)
         else (ps, currentTotalCost))"

text \<open>
  The \<^verbatim>\<open>for\<close> loop, counting the iterations that remain. An index outside the array
  reads \<^verbatim>\<open>undefined\<close>, and \<^verbatim>\<open>pairA.player1\<close> then throws a \<^verbatim>\<open>TypeError\<close>.
\<close>

fun localSearch ::
  "nat \<Rightarrow> synergy \<Rightarrow> string set \<Rightarrow> GeneratedPair list \<Rightarrow> real \<Rightarrow> real list \<Rightarrow>
   GeneratedPair list outcome" where
  "localSearch 0 syn recentPairs ps cur rs = Returned ps"
| "localSearch (Suc k) syn recentPairs ps cur rs =
     (if length ps < 2 then Returned ps
      else case rs of
        [] \<Rightarrow> Starved
      | r1 # rs1 \<Rightarrow>
         (case rs1 of
            [] \<Rightarrow> Starved
          | r2 # rs2 \<Rightarrow>
             (let idx1 = randIndex (length ps) r1
              in case redraw (length ps) idx1 (randIndex (length ps) r2) rs2 of
                   None \<Rightarrow> Starved
                 | Some (idx2, rs3) \<Rightarrow>
                     if idx1 < 0 \<or> int (length ps) \<le> idx1 \<or> idx2 < 0 \<or> int (length ps) \<le> idx2
                     then Threw ''TypeError''
                     else (case trySwap ps cur syn recentPairs (nat idx1) (nat idx2) of
                             (ps', cur') \<Rightarrow> localSearch k syn recentPairs ps' cur' rs3))))"

definition generateOptimalPairs ::
  "PlayerForm list \<Rightarrow> synergy \<Rightarrow> string set \<Rightarrow> real list \<Rightarrow> GeneratedPair list outcome" where
  "generateOptimalPairs pool syn recentPairs rs =
     (let ps = greedySeed pool syn recentPairs
      in localSearch 200 syn recentPairs ps (totalCost ps) rs)"

section \<open>Step 5: matchmaking, and step 6: the handicap\<close>

definition matchupCost :: "GeneratedPair \<Rightarrow> GeneratedPair \<Rightarrow> string set \<Rightarrow> real" where
  "matchupCost t1 t2 recentMatches =
     (let c1 = 1 * (strength t1 - strength t2) ^ 2;
          c2 = c1 + 7 / 10 * (pair_structure t1 - pair_structure t2) ^ 2;
          allIds = join_dash (sort [pf_id (player1 t1), pf_id (player2 t1),
                                    pf_id (player1 t2), pf_id (player2 t2)])
      in if allIds \<in> recentMatches then c2 + 50 else c2)"

text \<open>
  The scan for the best opponent of \<open>t1\<close>; \<open>i\<close> is the index of the head of the list
  in the pool, and \<open>None\<close> stands for \<^verbatim>\<open>bestOpponentIdx = -1\<close>, \<^verbatim>\<open>minMatchCost = Infinity\<close>.
\<close>

fun bestOpponent ::
  "GeneratedPair \<Rightarrow> string set \<Rightarrow> nat \<Rightarrow> (nat \<times> real) option \<Rightarrow> GeneratedPair list \<Rightarrow>
   (nat \<times> real) option" where
  "bestOpponent t1 recentMatches i best [] = best"
| "bestOpponent t1 recentMatches i best (t2 # rest) =
     (let c = matchupCost t1 t2 recentMatches
      in if (case best of None \<Rightarrow> True | Some (bestOpponentIdx, minMatchCost) \<Rightarrow> c < minMatchCost)
         then bestOpponent t1 recentMatches (Suc i) (Some (i, c)) rest
         else bestOpponent t1 recentMatches (Suc i) best rest)"

text \<open>The handicap block of \<^verbatim>\<open>generateMatchups\<close>.\<close>

definition schedulerHandicap :: "GeneratedPair \<Rightarrow> GeneratedPair \<Rightarrow> Handicap option" where
  "schedulerHandicap t1 t2 =
     (let diff = \<bar>strength t1 - strength t2\<bar>;
          points0 = (if diff > 3 / 10 \<and> diff \<le> 6 / 10 then 1
                     else if diff > 6 / 10 \<and> diff \<le> 9 / 10 then 2
                     else if diff > 9 / 10 \<and> diff \<le> 12 / 10 then 3
                     else if diff > 12 / 10 then 4
                     else 0);
          weakerTeam = (if strength t1 < strength t2 then 1 else 2);
          weakPair = (if weakerTeam = 1 then t1 else t2);
          points1 = (if points0 > 0 \<and> (effectiveRating (player1 weakPair) < SUPPORT_CUTOFF
                                       \<or> effectiveRating (player2 weakPair) < SUPPORT_CUTOFF)
                     then points0 + 1 else points0)
      in if points1 > 0
         then Some \<lparr>team = weakerTeam, points = points1, reason = toFixed2 diff\<rparr>
         else None)"

definition scheduledMatch :: "GeneratedPair \<Rightarrow> GeneratedPair \<Rightarrow> real \<Rightarrow> GeneratedMatch" where
  "scheduledMatch t1 t2 minMatchCost =
     \<lparr>g_team1 = t1, g_team2 = t2, matchCost = minMatchCost,
      handicap = schedulerHandicap t1 t2,
      analysis = \<lparr>team2Synergy = 0, team2Form = 0,
                  qualityScore = max 0 (100 - minMatchCost)\<rparr>\<rparr>"

text \<open>\<^verbatim>\<open>pool.splice(i, 1)\<close>\<close>

definition removeAt :: "nat \<Rightarrow> 'a list \<Rightarrow> 'a list" where
  "removeAt i xs = take i xs @ drop (Suc i) xs"

text \<open>The \<^verbatim>\<open>while (pool.length >= 2)\<close> loop.\<close>

function scheduleLoop :: "string set \<Rightarrow> GeneratedPair list \<Rightarrow> GeneratedMatch list" where
  "scheduleLoop recentMatches pool =
     (if length pool \<ge> 2
      then (let t1 = hd pool; pool1 = tl pool
            in case bestOpponent t1 recentMatches 0 None pool1 of
                 None \<Rightarrow> scheduleLoop recentMatches pool1
               | Some (bestOpponentIdx, minMatchCost) \<Rightarrow>
                   scheduledMatch t1 (pool1 ! bestOpponentIdx) minMatchCost
                     # scheduleLoop recentMatches (removeAt bestOpponentIdx pool1))
      else [])"
  by pat_completeness auto
termination
proof (relation "measure (\<lambda>(recentMatches, pool). length pool)")
  show "wf (measure (\<lambda>(recentMatches :: string set, pool :: GeneratedPair list). length pool))"
    by simp
next
  fix recentMatches :: "string set" and pool :: "GeneratedPair list" and x xa
  assume "2 \<le> length pool" "xa = tl pool"
  then show "((recentMatches, xa), recentMatches, pool)
               \<in> measure (\<lambda>(recentMatches, pool). length pool)"
    by (cases pool) simp_all
next
  fix recentMatches :: "string set" and pool :: "GeneratedPair list"
    and x xa :: "GeneratedPair list" and x2 :: "nat \<times> real" and xb :: nat and y :: real
  assume "2 \<le> length pool" "xa = tl pool"
  then have "length (removeAt xb xa) < length pool"
    by (cases pool) (simp_all add: removeAt_def)
  then show "((recentMatches, removeAt xb xa), recentMatches, pool)
               \<in> measure (\<lambda>(recentMatches, pool). length pool)"
    by simp
qed

definition generateMatchups :: "GeneratedPair list \<Rightarrow> string set \<Rightarrow> GeneratedMatch list" where
  "generateMatchups teams recentMatches =
     scheduleLoop recentMatches (sort_key (\<lambda>t. - strength t) teams)"

section \<open>Recency context\<close>

text \<open>The last \<open>n\<close> matches by descending date.\<close>

definition lastMatches :: "nat \<Rightarrow> Match list \<Rightarrow> Match list" where
  "lastMatches n ms = take n (sort_key (\<lambda>m. - date m) ms)"

definition recentPairKeys :: "Match list \<Rightarrow> string set" where
  "recentPairKeys ms =
     set (concat (map (\<lambda>m. (if length (team1 m) = 2 then [join_dash (sort (team1 m))] else [])
                            @ (if length (team2 m) = 2 then [join_dash (sort (team2 m))] else []))
                      ms))"

definition recentMatchKeys :: "Match list \<Rightarrow> string set" where
  "recentMatchKeys ms =
     set (map (\<lambda>m. join_dash (sort (team1 m @ team2 m)))
              (filter (\<lambda>m. length (team1 m) = 2 \<and> length (team2 m) = 2) ms))"

section \<open>Best opponents for a fixed team\<close>

text \<open>The two nested loops over \<open>i < j\<close>, the recent-pairs set being empty.\<close>

fun candidatePairsOf :: "synergy \<Rightarrow> PlayerForm list \<Rightarrow> GeneratedPair list" where
  "candidatePairsOf syn [] = []"
| "candidatePairsOf syn (opp1 # rest) =
     map (\<lambda>opp2. mkPair opp1 opp2 (getPairingCost opp1 opp2 syn {})) rest
       @ candidatePairsOf syn rest"

text \<open>The handicap block of \<^verbatim>\<open>findTopMatchupsForTeam\<close>.\<close>

definition fixedTeamHandicap :: "GeneratedPair \<Rightarrow> GeneratedPair \<Rightarrow> Handicap option" where
  "fixedTeamHandicap fixedTeam candidate =
     (let diff = \<bar>strength fixedTeam - strength candidate\<bar>;
          points0 = (if diff > 3 / 10 \<and> diff \<le> 6 / 10 then 1
                     else if diff > 6 / 10 \<and> diff \<le> 9 / 10 then 2
                     else if diff > 9 / 10 \<and> diff \<le> 12 / 10 then 3
                     else if diff > 12 / 10 then 4
                     else 0);
          weakerTeam = (if strength fixedTeam < strength candidate then 1 else 2);
          weakPair = (if weakerTeam = 1 then fixedTeam else candidate);
          points1 = (if points0 > 0 \<and> (effectiveRating (player1 weakPair) < SUPPORT_CUTOFF
                                       \<or> effectiveRating (player2 weakPair) < SUPPORT_CUTOFF)
                     then points0 + 1 else points0)
      in if points1 > 0
         then Some \<lparr>team = weakerTeam, points = points1, reason = toFixed2 diff\<rparr>
         else None)"

definition rankMatchup ::
  "GeneratedPair \<Rightarrow> PlayerForm \<Rightarrow> PlayerForm \<Rightarrow> synergy \<Rightarrow> string set \<Rightarrow> GeneratedPair \<Rightarrow>
   GeneratedMatch" where
  "rankMatchup fixedTeam p1 p2 syn recentMatches candidate =
     (let m1 = 0 + 1 * (strength fixedTeam - strength candidate) ^ 2;
          m2 = m1 + 7 / 10 * (pair_structure fixedTeam - pair_structure candidate) ^ 2;
          m3 = m2 + cost candidate * (5 / 10);
          allIds = join_dash (sort [pf_id p1, pf_id p2,
                                    pf_id (player1 candidate), pf_id (player2 candidate)]);
          mc = (if allIds \<in> recentMatches then m3 + 50 else m3);
          pairKey = join_dash (sort [pf_id (player1 candidate), pf_id (player2 candidate)])
      in \<lparr>g_team1 = fixedTeam, g_team2 = candidate, matchCost = mc,
          handicap = fixedTeamHandicap fixedTeam candidate,
          analysis = \<lparr>team2Synergy = synergyLookup syn pairKey,
                      team2Form = form (player1 candidate) + form (player2 candidate),
                      qualityScore = max 0 (100 - mc)\<rparr>\<rparr>)"

text \<open>\<^verbatim>\<open>a.handicap ? a.handicap.points : 0\<close>\<close>

definition handicapPoints :: "GeneratedMatch \<Rightarrow> nat" where
  "handicapPoints m = (case handicap m of None \<Rightarrow> 0 | Some h \<Rightarrow> points h)"

text \<open>
  The comparator of the final sort orders by handicap points, then by match cost: the
  stable sort by the lexicographic key.
\<close>

definition findTopMatchupsForTeam ::
  "string \<times> string \<Rightarrow> string list \<Rightarrow> Player list \<Rightarrow> Match list \<Rightarrow> GeneratedMatch list" where
  "findTopMatchupsForTeam fixedTeamIds poolIds allPlayers allMatches =
     (let playerForms = calculatePlayerForms allPlayers allMatches;
          synergyMatrix = calculateSynergyMatrix allMatches
      in case playerForms (fst fixedTeamIds) of None \<Rightarrow> [] | Some p1 \<Rightarrow>
         case playerForms (snd fixedTeamIds) of None \<Rightarrow> [] | Some p2 \<Rightarrow>
           (let fixedTeam = mkPair p1 p2 0;
                pool = List.map_filter playerForms poolIds;
                candidatePairs = candidatePairsOf synergyMatrix pool;
                recentMatches = recentMatchKeys (lastMatches 50 allMatches);
                rankedMatchups =
                  map (rankMatchup fixedTeam p1 p2 synergyMatrix recentMatches) candidatePairs
            in take 10 (sort_key (\<lambda>m. (handicapPoints m, matchCost m)) rankedMatchups)))"

section \<open>Predicting one match\<close>

text \<open>
  The construction of one team from its list of identifiers, written twice in
  \<^verbatim>\<open>predictMatchOutcome\<close>; \<open>None\<close> is the \<^verbatim>\<open>return null\<close> for an unknown first member.
\<close>

definition buildTeam :: "forms \<Rightarrow> string list \<Rightarrow> GeneratedPair option" where
  "buildTeam playerForms ids =
     (let tp2 = (if length ids > 1 then playerForms (ids ! 1) else None)
      in case playerForms (ids ! 0) of
           None \<Rightarrow> None
         | Some tp1 \<Rightarrow>
             Some \<lparr>player1 = tp1,
                   player2 = (case tp2 of None \<Rightarrow> tp1 | Some q \<Rightarrow> q),
                   strength = effectiveRating tp1
                              + (case tp2 of None \<Rightarrow> 0 | Some q \<Rightarrow> effectiveRating q),
                   pair_structure =
                     (case tp2 of None \<Rightarrow> 0
                      | Some q \<Rightarrow> \<bar>effectiveRating tp1 - effectiveRating q\<bar>),
                   cost = 0\<rparr>)"

definition hasWeakLink :: "string list \<Rightarrow> GeneratedPair \<Rightarrow> bool" where
  "hasWeakLink team1Ids p =
     (effectiveRating (player1 p) < SUPPORT_CUTOFF
      \<or> (length team1Ids > 1 \<and> effectiveRating (player2 p) < SUPPORT_CUTOFF))"

text \<open>The handicap block of \<^verbatim>\<open>predictMatchOutcome\<close>.\<close>

definition predictorHandicap ::
  "string list \<Rightarrow> GeneratedPair \<Rightarrow> GeneratedPair \<Rightarrow> Handicap option" where
  "predictorHandicap team1Ids team1Pair team2Pair =
     (let diff = \<bar>strength team1Pair - strength team2Pair\<bar>;
          points0 = (if diff > 3 / 10 \<and> diff \<le> 6 / 10 then 1
                     else if diff > 6 / 10 \<and> diff \<le> 9 / 10 then 2
                     else if diff > 9 / 10 \<and> diff \<le> 12 / 10 then 3
                     else if diff > 12 / 10 then 4
                     else 0);
          weakerTeam = (if strength team1Pair < strength team2Pair then 1 else 2);
          weakPair = (if weakerTeam = 1 then team1Pair else team2Pair);
          points1 = (if points0 > 0 \<and> hasWeakLink team1Ids weakPair
                     then points0 + 1 else points0)
      in if points1 > 0
         then Some \<lparr>team = weakerTeam, points = points1, reason = toFixed2 diff\<rparr>
         else None)"

definition predictMatchOutcome ::
  "string list \<Rightarrow> string list \<Rightarrow> Player list \<Rightarrow> Match list \<Rightarrow> GeneratedMatch option" where
  "predictMatchOutcome team1Ids team2Ids allPlayers allMatches =
     (if length team1Ids = 0 \<or> length team2Ids = 0 then None
      else let playerForms = calculatePlayerForms allPlayers allMatches
           in case buildTeam playerForms team1Ids of None \<Rightarrow> None | Some team1Pair \<Rightarrow>
              case buildTeam playerForms team2Ids of None \<Rightarrow> None | Some team2Pair \<Rightarrow>
                (let diff = \<bar>strength team1Pair - strength team2Pair\<bar>
                 in Some \<lparr>g_team1 = team1Pair, g_team2 = team2Pair, matchCost = 0,
                          handicap = predictorHandicap team1Ids team1Pair team2Pair,
                          analysis = \<lparr>team2Synergy = 0, team2Form = 0,
                                      qualityScore = max 0 (100 - diff * 50)\<rparr>\<rparr>))"

section \<open>The main entry point\<close>

text \<open>
  The message of the error thrown for an odd number of players, "the number of players
  must be even" in Vietnamese, without its diacritics.
\<close>

definition oddCountMessage :: string where
  "oddCountMessage = ''So luong nguoi choi phai la so chan.''"

definition selectedPlayers :: "string list \<Rightarrow> Player list \<Rightarrow> Player list" where
  "selectedPlayers selectedPlayerIds allPlayers =
     filter (\<lambda>p. p_id p \<in> set selectedPlayerIds) allPlayers"

text \<open>
  \<^verbatim>\<open>playerForms.get(String(p.id))!\<close> asserts nothing at run time: a missing form would be
  an \<^verbatim>\<open>undefined\<close> element of the pool, whose \<^verbatim>\<open>id\<close> the greedy phase reads.
\<close>

definition runAutoMatchmaker ::
  "string list \<Rightarrow> Player list \<Rightarrow> Match list \<Rightarrow> real list \<Rightarrow> AutoMatchResult outcome" where
  "runAutoMatchmaker selectedPlayerIds allPlayers allMatches rs =
     (let selected = selectedPlayers selectedPlayerIds allPlayers
      in if length selected mod 2 \<noteq> 0 then Threw oddCountMessage
         else let playerForms = calculatePlayerForms allPlayers allMatches;
                  synergyMatrix = calculateSynergyMatrix allMatches
              in case those (map (\<lambda>p. playerForms (p_id p)) selected) of
                   None \<Rightarrow> Threw ''TypeError''
                 | Some pool \<Rightarrow>
                     (let sortedMatches = lastMatches 20 allMatches;
                          recentPairs = recentPairKeys sortedMatches;
                          recentMatches = recentMatchKeys sortedMatches
                      in case generateOptimalPairs pool synergyMatrix recentPairs rs of
                           Threw e \<Rightarrow> Threw e
                         | Starved \<Rightarrow> Starved
                         | Returned ps \<Rightarrow>
                             Returned \<lparr>players = pool, pairs = ps,
                                       matches = generateMatchups ps recentMatches\<rparr>))"

section \<open>Statements of the specification, and example inputs\<close>

text \<open>
  The base rating as the specification words it: the raw rating when it is positive and
  at most 20, and 3.0 in every other case.
\<close>

definition specBaseRating :: "real \<Rightarrow> real" where
  "specBaseRating raw = (if 0 < raw \<and> raw \<le> 20 then raw else 3)"

text \<open>
  The base rating as the comment in the source words it: 3.0 above 20 (the old scale)
  and for a missing or zero rating, the rating itself otherwise.
\<close>

definition amendedBaseRating :: "real \<Rightarrow> real" where
  "amendedBaseRating raw = (if raw > 20 \<or> raw = 0 then 3 else raw)"

definition ratedPlayer :: "string \<Rightarrow> real \<Rightarrow> Player" where
  "ratedPlayer i r = \<lparr>p_id = i, initialPoints = None, tournamentRating = Some r\<rparr>"

definition negativePlayer :: Player where
  "negativePlayer = \<lparr>p_id = ''N'', initialPoints = None, tournamentRating = Some (- 1)\<rparr>"

definition legacyPlayer :: Player where
  "legacyPlayer = \<lparr>p_id = ''L'', initialPoints = Some 1000, tournamentRating = None\<rparr>"

definition mixedRoster :: "Player list" where
  "mixedRoster = [ratedPlayer ''A'' 6, ratedPlayer ''B'' 3, ratedPlayer ''C'' 2]"

text \<open>The form stored for a player, 0 for an identifier outside the map.\<close>

definition formAt :: "forms \<Rightarrow> string \<Rightarrow> real" where
  "formAt st k = (case st k of None \<Rightarrow> 0 | Some f \<Rightarrow> form f)"

definition fourPlayers :: "Player list" where
  "fourPlayers =
     [ratedPlayer ''A'' 3, ratedPlayer ''B'' 3, ratedPlayer ''C'' 3, ratedPlayer ''D'' 3]"

definition firstMatch :: Match where
  "firstMatch = \<lparr>date = 1, team1 = [''A'', ''B''], team2 = [''C'', ''D''], winner = 1\<rparr>"

text \<open>
  The recorded games of a pair key, as the specification counts them: every side of
  two players of every match is one game for its key, and a win when that side won.
\<close>

definition sides :: "Match \<Rightarrow> (string \<times> bool) list" where
  "sides m =
     (if length (team1 m) = 2
      then [(getPairKey (team1 m ! 0) (team1 m ! 1), winner m = 1)] else [])
     @ (if length (team2 m) = 2
        then [(getPairKey (team2 m ! 0) (team2 m ! 1), winner m = 2)] else [])"

definition recordedGames :: "string \<Rightarrow> Match list \<Rightarrow> nat" where
  "recordedGames k ms = length (filter (\<lambda>s. fst s = k) (concat (map sides ms)))"

definition recordedWins :: "string \<Rightarrow> Match list \<Rightarrow> nat" where
  "recordedWins k ms = length (filter (\<lambda>s. fst s = k \<and> snd s) (concat (map sides ms)))"

text \<open>The counters stored under a key, 0 for a key outside the map.\<close>

definition gamesAt :: "(string \<rightharpoonup> PairStat) \<Rightarrow> string \<Rightarrow> nat" where
  "gamesAt st k = (case st k of None \<Rightarrow> 0 | Some s \<Rightarrow> games s)"

definition winsAt :: "(string \<rightharpoonup> PairStat) \<Rightarrow> string \<Rightarrow> nat" where
  "winsAt st k = (case st k of None \<Rightarrow> 0 | Some s \<Rightarrow> wins s)"

text \<open>A match whose first team is not in the roster \<open>fourPlayers\<close>.\<close>

definition ghostMatch :: Match where
  "ghostMatch = \<lparr>date = 2, team1 = [''X'', ''Y''], team2 = [''A'', ''B''], winner = 1\<rparr>"

text \<open>
  The number of complete selections of two different indices that a list of random
  values holds for an array of \<open>n\<close> pairs: the first value gives the first index, and
  values are passed over until one gives a different index.
\<close>

fun drawRounds :: "nat \<Rightarrow> int option \<Rightarrow> real list \<Rightarrow> nat" where
  "drawRounds n None [] = 0"
| "drawRounds n None (r # rs) = drawRounds n (Some (randIndex n r)) rs"
| "drawRounds n (Some idx1) [] = 0"
| "drawRounds n (Some idx1) (r # rs) =
     (if randIndex n r = idx1 then drawRounds n (Some idx1) rs
      else Suc (drawRounds n None rs))"

text \<open>\<^verbatim>\<open>Math.random()\<close> returns values from 0 inclusive to 1 exclusive.\<close>

definition unitDraws :: "real list \<Rightarrow> bool" where
  "unitDraws rs = (\<forall>r\<in>set rs. 0 \<le> r \<and> r < 1)"

text \<open>
  The invariant of a pair in the data model of the specification: a structure that is
  not negative, and a strength that is the sum of the effective ratings in its two slots.
\<close>

definition pairInvariant :: "GeneratedPair \<Rightarrow> bool" where
  "pairInvariant p =
     (pair_structure p \<ge> 0
      \<and> strength p = effectiveRating (player1 p) + effectiveRating (player2 p))"

text \<open>A pool on which the greedy seeding is improved by one swap.\<close>

definition formOf :: "string \<Rightarrow> real \<Rightarrow> PlayerForm" where
  "formOf i r = \<lparr>pf_id = i, baseRating = r, form = 0, effectiveRating = r\<rparr>"

definition unevenPool :: "PlayerForm list" where
  "unevenPool =
     [formOf ''C'' (25 / 10), formOf ''A'' 1, formOf ''D'' (39 / 10), formOf ''B'' (24 / 10)]"

text \<open>Random values that select the indices 0 and 1 in each of the 200 iterations.\<close>

definition alternatingDraws :: "real list" where
  "alternatingDraws = concat (replicate 200 [0, 1 / 2])"

text \<open>
  A team of the predictor is a doubles team when its list has a second identifier and
  that identifier is in the roster; otherwise it is built as a singles team.
\<close>

definition secondResolved :: "forms \<Rightarrow> string list \<Rightarrow> bool" where
  "secondResolved playerForms ids = (length ids > 1 \<and> playerForms (ids ! 1) \<noteq> None)"

text \<open>
  The shape of a singles team: structure 0, the strength of its one player, and that
  player in both slots.
\<close>

definition singlesShape :: "GeneratedPair \<Rightarrow> bool" where
  "singlesShape p =
     (pair_structure p = 0 \<and> strength p = effectiveRating (player1 p) \<and> player2 p = player1 p)"

text \<open>A roster with a support player, D.\<close>

definition clubRoster :: "Player list" where
  "clubRoster =
     [ratedPlayer ''A'' 4, ratedPlayer ''B'' 3, ratedPlayer ''C'' 3, ratedPlayer ''D'' (25 / 10)]"

text \<open>The step function of the handicap as the specification words it.\<close>

definition stepPoints :: "real \<Rightarrow> nat" where
  "stepPoints diff =
     (if diff \<le> 3 / 10 then 0
      else if diff \<le> 6 / 10 then 1
      else if diff \<le> 9 / 10 then 2
      else if diff \<le> 12 / 10 then 3
      else 4)"

text \<open>
  What the specification says of the handicap of a match proposal: the points are the
  step points of the difference of the strengths plus at most one bonus point, the
  bonus needs step points above 0, the total is at most 5, and the record is present
  exactly when the total is above 0.
\<close>

definition handicapRule :: "GeneratedMatch \<Rightarrow> bool" where
  "handicapRule m =
     (let diff = \<bar>strength (g_team1 m) - strength (g_team2 m)\<bar>;
          base = stepPoints diff;
          total = handicapPoints m
      in (total = base \<or> total = base + 1)
         \<and> (base = 0 \<longrightarrow> total = 0)
         \<and> total \<le> 5
         \<and> ((handicap m \<noteq> None) = (total > 0)))"

text \<open>Every form in the map is stored under its own identifier.\<close>

definition keyed :: "forms \<Rightarrow> bool" where
  "keyed st = (\<forall>k f. st k = Some f \<longrightarrow> pf_id f = k)"

section \<open>Properties\<close>

lemmas config_defs = D_FACTOR_def K_FACTOR_def SUPPORT_CUTOFF_def TARGET_DIFF_def

lemmas form_eval =
  calculatePlayerForms_def replayAll_def initForms_def initForm_def rawRating_def or_num_def
  normalizeRating_def finalizeForm_def toFixed2_def ratedPlayer_def

subsection \<open>Initial base ratings\<close>

lemma initForms_snoc: "initForms (ps @ [p]) = (initForms ps)(p_id p \<mapsto> initForm p)"
  by (simp add: initForms_def)

lemma initForms_lookup:
  "initForms ps k =
     (if filter (\<lambda>q. p_id q = k) ps = [] then None
      else Some (initForm (last (filter (\<lambda>q. p_id q = k) ps))))"
proof (induction ps rule: rev_induct)
  case Nil
  show ?case by (simp add: initForms_def)
next
  case (snoc p ps)
  then show ?case
    by (cases "p_id p = k") (simp_all add: initForms_snoc)
qed

text \<open>
  Claim C9, as the code has it. The entry of the initial map under an identifier is that
  of the last roster player carrying it. Its base rating is 3.0 when the raw rating is
  above 20, missing or zero, and the raw rating itself otherwise, also when that is
  negative; its form is 0.
\<close>

theorem base_rating_init:
  "initForms ps k =
     (if filter (\<lambda>q. p_id q = k) ps = [] then None
      else Some \<lparr>pf_id = k,
                 baseRating = amendedBaseRating (rawRating (last (filter (\<lambda>q. p_id q = k) ps))),
                 form = 0,
                 effectiveRating =
                   amendedBaseRating (rawRating (last (filter (\<lambda>q. p_id q = k) ps)))\<rparr>)"
proof (cases "filter (\<lambda>q. p_id q = k) ps = []")
  case True
  then show ?thesis by (simp add: initForms_lookup)
next
  case False
  then have "last (filter (\<lambda>q. p_id q = k) ps) \<in> set (filter (\<lambda>q. p_id q = k) ps)"
    by (rule last_in_set)
  then have "p_id (last (filter (\<lambda>q. p_id q = k) ps)) = k" by simp
  then show ?thesis
    using False
    by (simp add: initForms_lookup initForm_def normalizeRating_def amendedBaseRating_def)
qed

theorem base_rating_init_witness:
  "initForms [ratedPlayer ''A'' 6, legacyPlayer, negativePlayer] ''L''
     = Some \<lparr>pf_id = ''L'', baseRating = 3, form = 0, effectiveRating = 3\<rparr>
   \<and> initForms [ratedPlayer ''A'' 6, legacyPlayer, negativePlayer] ''A''
     = Some \<lparr>pf_id = ''A'', baseRating = 6, form = 0, effectiveRating = 6\<rparr>"
  using base_rating_init [of "[ratedPlayer ''A'' 6, legacyPlayer, negativePlayer]" "''L''"]
    base_rating_init [of "[ratedPlayer ''A'' 6, legacyPlayer, negativePlayer]" "''A''"]
  by (simp add: ratedPlayer_def legacyPlayer_def negativePlayer_def rawRating_def or_num_def
      amendedBaseRating_def)

text \<open>
  Claim C9 as stated fails for a negative raw rating: the code keeps it as the base
  rating, where the claim gives 3.0.
\<close>

theorem base_rating_init_counterexample:
  "map_option baseRating (initForms [negativePlayer] ''N'')
     \<noteq> Some (specBaseRating (rawRating negativePlayer))"
  by (simp add: initForms_def initForm_def negativePlayer_def rawRating_def or_num_def
      normalizeRating_def specBaseRating_def)

subsection \<open>The support bonus of the predictor\<close>

text \<open>
  Claim C1 at a singles team 1 against a doubles team 2. Team 2 is the weaker team
  (strength 5 against 6, three step points) and its second player is a support player
  (rating 2 < 2.6), yet the predictor adds no bonus point: its test looks at the length
  of team 1's list for either pair. The scheduler's rule gives four points for the same
  two pairs.
\<close>

theorem predictor_mixed_teams_no_bonus:
  "map_option handicap (predictMatchOutcome [''A''] [''B'', ''C''] mixedRoster [])
     = Some (Some \<lparr>team = 2, points = 3, reason = 1\<rparr>)
   \<and> map_option (\<lambda>m. effectiveRating (player2 (g_team2 m)))
        (predictMatchOutcome [''A''] [''B'', ''C''] mixedRoster []) = Some 2
   \<and> map_option (\<lambda>m. schedulerHandicap (g_team1 m) (g_team2 m))
        (predictMatchOutcome [''A''] [''B'', ''C''] mixedRoster [])
     = Some (Some \<lparr>team = 2, points = 4, reason = 1\<rparr>)"
  by (simp add: predictMatchOutcome_def buildTeam_def predictorHandicap_def hasWeakLink_def
      schedulerHandicap_def mixedRoster_def config_defs form_eval)

subsection \<open>One match of the chronological replay\<close>

lemma addForm_lookup:
  "addForm st k d x = map_option (\<lambda>f. if x = k then f\<lparr>form := form f + d\<rparr> else f) (st x)"
  by (cases "st k"; cases "st x") (auto simp: addForm_def)

lemma formAt_addForm:
  "formAt (addForm st k d) x = formAt st x + (if x = k \<and> st k \<noteq> None then d else 0)"
  by (cases "st x") (auto simp: formAt_def addForm_lookup)

lemma addForm_eq_None [simp]: "addForm st k d x = None \<longleftrightarrow> st x = None"
  by (simp add: addForm_lookup)

lemma dom_addForm [simp]: "dom (addForm st k d) = dom st"
  by (auto simp: dom_def)

lemma replayMatch_applied:
  assumes "team1 m = [a, b]" "team2 m = [c, d]"
    and "st a = Some fa" "st b = Some fb" "st c = Some fc" "st d = Some fd"
  shows "replayMatch st m =
           addForm (addForm (addForm (addForm st a (matchShare fa fb fc fd (winner m)))
                      b (matchShare fa fb fc fd (winner m)))
                      c (- matchShare fa fb fc fd (winner m)))
                      d (- matchShare fa fb fc fd (winner m))"
  using assms by (simp add: replayMatch_def Let_def)

text \<open>
  Claim C2. A match of two resolvable players a side is applied in any state of the
  replay. With \<open>share = K * (actual - expected1) / 2\<close>, \<open>K = 0.18\<close> and
  \<open>expected1 = 1 / (1 + 10 powr ((effTeam2 - effTeam1) / 1.2))\<close>, the form of every player
  grows by \<open>share\<close> for each place it holds in team 1 and by \<open>- share\<close> for each place in
  team 2. For four different players each member of team 1 gains \<open>share\<close>, each member of
  team 2 gains its negation, and the two sums are opposite.
\<close>

theorem form_update_zero_sum:
  assumes "team1 m = [a, b]" "team2 m = [c, d]"
    and "st a = Some fa" "st b = Some fb" "st c = Some fc" "st d = Some fd"
  defines "effT1 \<equiv> (baseRating fa + form fa) + (baseRating fb + form fb)"
    and "effT2 \<equiv> (baseRating fc + form fc) + (baseRating fd + form fd)"
  defines "share \<equiv> 18 / 100 * ((if winner m = 1 then 1 else 0)
                                  - 1 / (1 + 10 powr ((effT2 - effT1) / (12 / 10)))) / 2"
  defines "st' \<equiv> replayMatch st m"
  shows "(\<forall>k. formAt st' k = formAt st k + share * real (count_list [a, b] k)
                                          - share * real (count_list [c, d] k))
         \<and> (distinct [a, b, c, d] \<longrightarrow>
              formAt st' a - formAt st a = share \<and> formAt st' b - formAt st b = share
              \<and> formAt st' c - formAt st c = - share \<and> formAt st' d - formAt st d = - share
              \<and> (formAt st' a - formAt st a) + (formAt st' b - formAt st b)
                  = - ((formAt st' c - formAt st c) + (formAt st' d - formAt st d)))"
proof -
  have sh: "matchShare fa fb fc fd (winner m) = share"
    by (simp add: matchShare_def expectedT1_def share_def effT1_def effT2_def config_defs Let_def)
  have key: "formAt st' k = formAt st k + share * real (count_list [a, b] k)
                                          - share * real (count_list [c, d] k)" for k
    unfolding st'_def replayMatch_applied [OF assms(1-6)] sh formAt_addForm
    using assms(3-6) by (simp add: algebra_simps)
  show ?thesis
    using key [of a] key [of b] key [of c] key [of d] by (auto simp: key)
qed

theorem form_update_zero_sum_witness:
  "formAt (replayMatch (initForms fourPlayers) firstMatch) ''A'' = 45 / 1000
   \<and> formAt (replayMatch (initForms fourPlayers) firstMatch) ''B'' = 45 / 1000
   \<and> formAt (replayMatch (initForms fourPlayers) firstMatch) ''C'' = - 45 / 1000
   \<and> formAt (replayMatch (initForms fourPlayers) firstMatch) ''D'' = - 45 / 1000"
  using form_update_zero_sum [of firstMatch "''A''" "''B''" "''C''" "''D''" "initForms fourPlayers"
      "initForm (ratedPlayer ''A'' 3)" "initForm (ratedPlayer ''B'' 3)"
      "initForm (ratedPlayer ''C'' 3)" "initForm (ratedPlayer ''D'' 3)"]
  by (simp add: firstMatch_def fourPlayers_def initForms_def initForm_def ratedPlayer_def
      rawRating_def or_num_def normalizeRating_def formAt_def)

subsection \<open>Matches with unknown players in the form learner\<close>

lemma replayMatch_skip:
  assumes "x \<in> set (team1 m @ team2 m)" "st x = None"
  shows "replayMatch st m = st"
proof (cases "length (team1 m) = 2 \<and> length (team2 m) = 2")
  case False
  then show ?thesis by (auto simp: replayMatch_def)
next
  case True
  then obtain a b c d where t: "team1 m = [a, b]" "team2 m = [c, d]"
    by (auto simp: length_Suc_conv numeral_2_eq_2)
  with assms have "st a = None \<or> st b = None \<or> st c = None \<or> st d = None"
    by auto
  then show ?thesis
    using t by (auto simp: replayMatch_def split: option.splits)
qed

lemma dom_replayMatch [simp]: "dom (replayMatch st m) = dom st"
  by (simp add: replayMatch_def Let_def split: option.splits)

lemma dom_initForms: "dom (initForms ps) = set (map p_id ps)"
  by (auto simp: dom_def initForms_lookup filter_empty_conv)

lemma foldl_replay_filter:
  "foldl replayMatch st (filter (\<lambda>m. set (team1 m @ team2 m) \<subseteq> dom st) ms)
     = foldl replayMatch st ms"
proof (induction ms arbitrary: st)
  case Nil
  show ?case by simp
next
  case (Cons m ms)
  show ?case
  proof (cases "set (team1 m @ team2 m) \<subseteq> dom st")
    case True
    then show ?thesis
      using Cons.IH [of "replayMatch st m"] by simp
  next
    case False
    then obtain x where "x \<in> set (team1 m @ team2 m)" "st x = None"
      by (auto simp: dom_def)
    then have "replayMatch st m = st" by (rule replayMatch_skip)
    then show ?thesis
      using False Cons.IH [of st] by simp
  qed
qed

lemma replayAll_resolvable:
  "replayAll ps (filter (\<lambda>m. set (team1 m @ team2 m) \<subseteq> set (map p_id ps)) ms) = replayAll ps ms"
  unfolding replayAll_def
  using foldl_replay_filter [of "initForms ps" "sort_key date ms"]
  by (simp add: dom_initForms filter_sort)

subsection \<open>The synergy counters\<close>

lemma countMatch_sides:
  "countMatch st m = foldl (\<lambda>st s. bumpPair st (fst s) (snd s)) st (sides m)"
  by (simp add: countMatch_def sides_def Let_def)

lemma pairStats_bumps:
  "foldl countMatch st ms = foldl (\<lambda>st s. bumpPair st (fst s) (snd s)) st (concat (map sides ms))"
  by (induction ms arbitrary: st) (simp_all add: countMatch_sides)

lemma bumps_lookup:
  "foldl (\<lambda>st s. bumpPair st (fst s) (snd s)) st bs k =
     (if filter (\<lambda>s. fst s = k) bs = [] then st k
      else Some \<lparr>games = gamesAt st k + length (filter (\<lambda>s. fst s = k) bs),
                 wins = winsAt st k + length (filter (\<lambda>s. fst s = k \<and> snd s) bs)\<rparr>)"
proof (induction bs arbitrary: st)
  case Nil
  show ?case by simp
next
  case (Cons b bs)
  show ?case
    unfolding foldl_Cons Cons.IH
    by (cases "st k") (auto simp: bumpPair_def gamesAt_def winsAt_def Let_def filter_empty_conv)
qed

lemma pairStats_lookup:
  "pairStats ms k =
     (if recordedGames k ms = 0 then None
      else Some \<lparr>games = recordedGames k ms, wins = recordedWins k ms\<rparr>)"
  by (simp add: pairStats_def pairStats_bumps bumps_lookup recordedGames_def recordedWins_def
      gamesAt_def winsAt_def)

text \<open>
  Claim C7. The synergy map has an entry exactly for the pair keys with at least one
  recorded game, and the entry is \<open>ln (p' / (1 - p')) * (games / (games + 6))\<close> for
  \<open>p' = (wins + 2) / (games + 4)\<close> clamped to \<open>[0.01, 0.99]\<close>. A key without an entry is
  looked up as synergy 0, and the pairing cost is the one of a synergy of 0.
\<close>

theorem synergy_formula:
  "calculateSynergyMatrix ms k =
     (if recordedGames k ms = 0 then None
      else Some (ln (max (1 / 100) (min (99 / 100)
                       ((real (recordedWins k ms) + 2) / (real (recordedGames k ms) + 4)))
                     / (1 - max (1 / 100) (min (99 / 100)
                       ((real (recordedWins k ms) + 2) / (real (recordedGames k ms) + 4)))))
                 * (real (recordedGames k ms) / (real (recordedGames k ms) + 6))))
   \<and> (syn k = None \<longrightarrow> synergyLookup syn k = 0)
   \<and> (syn (join_dash (sort [pf_id p1, pf_id p2])) = None \<longrightarrow>
        getPairingCost p1 p2 syn recentPairs
          = getPairingCost p1 p2 (syn(join_dash (sort [pf_id p1, pf_id p2]) \<mapsto> 0)) recentPairs)"
  by (simp add: calculateSynergyMatrix_def pairStats_lookup synergyOf_def Let_def
      synergyLookup_def or_num_def getPairingCost_def)

theorem synergy_formula_witness:
  "calculateSynergyMatrix [firstMatch] ''A-B'' = Some (ln (3 / 2) * (1 / 7))
   \<and> calculateSynergyMatrix [firstMatch] ''C-D'' = Some (ln (2 / 3) * (1 / 7))
   \<and> calculateSynergyMatrix [firstMatch] ''A-C'' = None
   \<and> synergyLookup (calculateSynergyMatrix [firstMatch]) ''A-C'' = 0"
  using synergy_formula [of "[firstMatch]" "''A-B''"]
    synergy_formula [of "[firstMatch]" "''C-D''"]
    synergy_formula [of "[firstMatch]" "''A-C''" "calculateSynergyMatrix [firstMatch]"]
  by (simp add: recordedGames_def recordedWins_def sides_def firstMatch_def getPairKey_def)

subsection \<open>Matches with unknown players in both learners\<close>

text \<open>
  Claim C4, as the code has it. A match that names a player outside the roster leaves
  the result of the form learner as it is without that match, wherever the match stands
  in the log. The synergy estimator takes no roster: every side of two players of such
  a match is counted in the games and wins of its pair key like any other.
\<close>

theorem unknown_player_match:
  assumes "x \<in> set (team1 m @ team2 m)" "x \<notin> set (map p_id ps)"
  shows "calculatePlayerForms ps (ms1 @ m # ms2) = calculatePlayerForms ps (ms1 @ ms2)
         \<and> (\<forall>k. gamesAt (pairStats (ms1 @ m # ms2)) k
                  = gamesAt (pairStats (ms1 @ ms2)) k + length (filter (\<lambda>s. fst s = k) (sides m))
               \<and> winsAt (pairStats (ms1 @ m # ms2)) k
                  = winsAt (pairStats (ms1 @ ms2)) k
                    + length (filter (\<lambda>s. fst s = k \<and> snd s) (sides m)))"
proof -
  let ?P = "\<lambda>m. set (team1 m @ team2 m) \<subseteq> set (map p_id ps)"
  have "\<not> ?P m" using assms by auto
  then have "filter ?P (ms1 @ m # ms2) = filter ?P (ms1 @ ms2)" by simp
  then have "replayAll ps (ms1 @ m # ms2) = replayAll ps (ms1 @ ms2)"
    using replayAll_resolvable [of ps "ms1 @ m # ms2"] replayAll_resolvable [of ps "ms1 @ ms2"]
    by simp
  then have forms: "calculatePlayerForms ps (ms1 @ m # ms2) = calculatePlayerForms ps (ms1 @ ms2)"
    by (simp add: calculatePlayerForms_def)
  have counts: "gamesAt (pairStats ms) k = recordedGames k ms"
    "winsAt (pairStats ms) k = recordedWins k ms" for ms k
  proof -
    have "length (filter (\<lambda>s. fst s = k \<and> snd s) bs) \<le> length (filter (\<lambda>s. fst s = k) bs)"
      for bs :: "(string \<times> bool) list"
      by (induction bs) auto
    then have "recordedWins k ms \<le> recordedGames k ms"
      unfolding recordedWins_def recordedGames_def .
    show "gamesAt (pairStats ms) k = recordedGames k ms"
      by (simp add: gamesAt_def pairStats_lookup)
    show "winsAt (pairStats ms) k = recordedWins k ms"
      using \<open>recordedWins k ms \<le> recordedGames k ms\<close>
      by (simp add: winsAt_def pairStats_lookup)
  qed
  show ?thesis
    using forms by (simp add: counts recordedGames_def recordedWins_def)
qed

theorem unknown_player_match_witness:
  "calculatePlayerForms fourPlayers [ghostMatch, firstMatch]
     = calculatePlayerForms fourPlayers [firstMatch]
   \<and> gamesAt (pairStats [ghostMatch, firstMatch]) ''X-Y'' = 1
   \<and> winsAt (pairStats [ghostMatch, firstMatch]) ''X-Y'' = 1
   \<and> gamesAt (pairStats [ghostMatch, firstMatch]) ''A-B'' = 2"
  using unknown_player_match [of "''X''" ghostMatch fourPlayers "[]" "[firstMatch]"]
  by (simp add: ghostMatch_def fourPlayers_def ratedPlayer_def sides_def getPairKey_def
      pairStats_def countMatch_def bumpPair_def gamesAt_def winsAt_def firstMatch_def)

text \<open>
  Claim C4 as stated fails for the synergy estimator: the pair X, Y is not in the
  roster, and its match adds the entry of one game and one win under the key of the pair.
\<close>

theorem unknown_player_match_counterexample:
  "''X'' \<in> set (team1 ghostMatch @ team2 ghostMatch)
   \<and> ''X'' \<notin> set (map p_id fourPlayers)
   \<and> pairStats [firstMatch] ''X-Y'' = None
   \<and> pairStats [ghostMatch, firstMatch] ''X-Y'' = Some \<lparr>games = 1, wins = 1\<rparr>
   \<and> calculateSynergyMatrix [firstMatch] ''X-Y'' \<noteq> calculateSynergyMatrix [ghostMatch, firstMatch] ''X-Y''"
  by (simp add: ghostMatch_def fourPlayers_def ratedPlayer_def getPairKey_def
      pairStats_def countMatch_def bumpPair_def firstMatch_def calculateSynergyMatrix_def)

subsection \<open>The local search of the pair optimizer\<close>

lemma foldl_cost: "foldl (\<lambda>sum p. sum + cost p) a ps = a + sum_list (map cost ps)"
  by (induction ps arbitrary: a) simp_all

lemma totalCost_sum: "totalCost ps = sum_list (map cost ps)"
  by (simp add: totalCost_def foldl_cost)

lemma sum_cost_update:
  "i < length ps \<Longrightarrow>
   sum_list (map cost (ps[i := p])) = sum_list (map cost ps) - cost (ps ! i) + cost p"
proof (induction ps arbitrary: i)
  case Nil
  then show ?case by simp
next
  case (Cons q ps)
  then show ?case by (cases i) simp_all
qed

lemma cost_mkPair [simp]: "cost (mkPair p1 p2 c) = c"
  by (simp add: mkPair_def)

lemma pairInvariant_mkPair [simp]: "pairInvariant (mkPair p1 p2 c)"
  by (simp add: mkPair_def pairInvariant_def)

lemma trySwap_cost:
  assumes "idx1 < length ps" "idx2 < length ps" "idx1 \<noteq> idx2"
    and "cur = sum_list (map cost ps)"
    and "trySwap ps cur syn recentPairs idx1 idx2 = (ps', cur')"
  shows "cur' = sum_list (map cost ps') \<and> length ps' = length ps
         \<and> ((ps' = ps \<and> cur' = cur) \<or> cur' < cur)"
proof -
  let ?a = "mkPair (player1 (ps ! idx1)) (player2 (ps ! idx2))
              (getPairingCost (player1 (ps ! idx1)) (player2 (ps ! idx2)) syn recentPairs)"
  let ?b = "mkPair (player1 (ps ! idx2)) (player2 (ps ! idx1))
              (getPairingCost (player1 (ps ! idx2)) (player2 (ps ! idx1)) syn recentPairs)"
  have "sum_list (map cost ((ps[idx1 := ?a])[idx2 := ?b]))
          = sum_list (map cost ps) - cost (ps ! idx1) - cost (ps ! idx2) + cost ?a + cost ?b"
    using assms(1-3) by (simp add: sum_cost_update)
  then show ?thesis
    using assms(4,5) by (auto simp: trySwap_def Let_def split: if_splits)
qed

lemma trySwap_shape:
  assumes "trySwap ps cur syn recentPairs idx1 idx2 = (ps', cur')"
  shows "ps' = ps
         \<or> ps' = (ps[idx1 := mkPair (player1 (ps ! idx1)) (player2 (ps ! idx2))
                     (getPairingCost (player1 (ps ! idx1)) (player2 (ps ! idx2)) syn recentPairs)])
                   [idx2 := mkPair (player1 (ps ! idx2)) (player2 (ps ! idx1))
                     (getPairingCost (player1 (ps ! idx2)) (player2 (ps ! idx1)) syn recentPairs)]"
  using assms unfolding trySwap_def Let_def by (auto split: if_splits)

lemma trySwap_invariant:
  assumes "\<forall>p\<in>set ps. pairInvariant p"
    and "trySwap ps cur syn recentPairs idx1 idx2 = (ps', cur')"
  shows "\<forall>p\<in>set ps'. pairInvariant p"
proof -
  have upd: "\<forall>p\<in>set ((ps[idx1 := a])[idx2 := b]). pairInvariant p"
    if "pairInvariant a" "pairInvariant b" for a b
    using assms(1) that set_update_subset_insert [of "ps[idx1 := a]" idx2 b]
      set_update_subset_insert [of ps idx1 a]
    by blast
  from trySwap_shape [OF assms(2)] show ?thesis
  proof
    assume "ps' = ps"
    then show ?thesis using assms(1) by simp
  next
    assume "ps' = (ps[idx1 := mkPair (player1 (ps ! idx1)) (player2 (ps ! idx2))
                     (getPairingCost (player1 (ps ! idx1)) (player2 (ps ! idx2)) syn recentPairs)])
                   [idx2 := mkPair (player1 (ps ! idx2)) (player2 (ps ! idx1))
                     (getPairingCost (player1 (ps ! idx2)) (player2 (ps ! idx1)) syn recentPairs)]"
    then show ?thesis
      using upd [OF pairInvariant_mkPair pairInvariant_mkPair] by simp
  qed
qed

lemma redraw_Some:
  "redraw n idx1 idx2 rs = Some (j, rs') \<Longrightarrow>
   j \<noteq> idx1 \<and> (j = idx2 \<or> j \<in> randIndex n ` set rs) \<and> set rs' \<subseteq> set rs"
  by (induction n idx1 idx2 rs rule: redraw.induct) (auto split: if_splits)

lemma randIndex_range:
  assumes "0 \<le> r" "r < 1" "0 < n"
  shows "0 \<le> randIndex n r \<and> randIndex n r < int n"
proof -
  have "r * real n < real n" using assms by simp
  then have "\<lfloor>r * real n\<rfloor> < int n" by (simp add: floor_less_iff)
  moreover have "0 \<le> r * real n" using assms by simp
  ultimately show ?thesis by (simp add: randIndex_def)
qed

lemma localSearch_cost:
  assumes "cur = sum_list (map cost ps)"
    and "localSearch k syn recentPairs ps cur rs = Returned ps'"
  shows "sum_list (map cost ps') \<le> sum_list (map cost ps) \<and> length ps' = length ps"
  using assms
proof (induction k arbitrary: ps cur rs)
  case 0
  then show ?case by simp
next
  case (Suc k)
  show ?case
  proof (cases "length ps < 2")
    case True
    then show ?thesis using Suc.prems by simp
  next
    case False
    from Suc.prems(2) False obtain r1 r2 rs2 idx2 rs3 ps1 cur1 where
      rs: "rs = r1 # r2 # rs2"
      and rd: "redraw (length ps) (randIndex (length ps) r1) (randIndex (length ps) r2) rs2
                 = Some (idx2, rs3)"
      and rng: "0 \<le> randIndex (length ps) r1" "randIndex (length ps) r1 < int (length ps)"
               "0 \<le> idx2" "idx2 < int (length ps)"
      and sw: "trySwap ps cur syn recentPairs (nat (randIndex (length ps) r1)) (nat idx2)
                 = (ps1, cur1)"
      and rest: "localSearch k syn recentPairs ps1 cur1 rs3 = Returned ps'"
      by (auto simp: Let_def split: list.splits option.splits if_splits prod.splits)
    have ne: "nat (randIndex (length ps) r1) \<noteq> nat idx2"
      using redraw_Some [OF rd] rng by auto
    have i1: "nat (randIndex (length ps) r1) < length ps" and i2: "nat idx2 < length ps"
      using rng by simp_all
    have st: "cur1 = sum_list (map cost ps1) \<and> length ps1 = length ps
              \<and> ((ps1 = ps \<and> cur1 = cur) \<or> cur1 < cur)"
      by (rule trySwap_cost [OF i1 i2 ne Suc.prems(1) sw])
    then have "sum_list (map cost ps') \<le> sum_list (map cost ps1) \<and> length ps' = length ps1"
      using Suc.IH [OF _ rest] by simp
    then show ?thesis using st Suc.prems(1) by auto
  qed
qed

lemma localSearch_invariant:
  assumes "\<forall>p\<in>set ps. pairInvariant p"
    and "localSearch k syn recentPairs ps cur rs = Returned ps'"
  shows "\<forall>p\<in>set ps'. pairInvariant p"
  using assms
proof (induction k arbitrary: ps cur rs)
  case 0
  then show ?case by simp
next
  case (Suc k)
  show ?case
  proof (cases "length ps < 2")
    case True
    then show ?thesis using Suc.prems by simp
  next
    case False
    from Suc.prems(2) False obtain i j rs3 ps1 cur1 where
      sw: "trySwap ps cur syn recentPairs i j = (ps1, cur1)"
      and rest: "localSearch k syn recentPairs ps1 cur1 rs3 = Returned ps'"
      by (auto simp: Let_def split: list.splits option.splits if_splits prod.splits)
    show ?thesis
      using Suc.IH [OF trySwap_invariant [OF Suc.prems(1) sw] rest] .
  qed
qed

lemma unitDraws_Cons [simp]: "unitDraws (r # rs) \<longleftrightarrow> 0 \<le> r \<and> r < 1 \<and> unitDraws rs"
  by (auto simp: unitDraws_def)

lemma unitDraws_subset: "unitDraws rs \<Longrightarrow> set rs' \<subseteq> set rs \<Longrightarrow> unitDraws rs'"
  by (auto simp: unitDraws_def)

lemma trySwap_length:
  "trySwap ps cur syn recentPairs idx1 idx2 = (ps', cur') \<Longrightarrow> length ps' = length ps"
  using trySwap_shape [of ps cur syn recentPairs idx1 idx2 ps' cur'] by auto

lemma localSearch_no_throw:
  assumes "unitDraws rs"
  shows "localSearch k syn recentPairs ps cur rs \<noteq> Threw e"
  using assms
proof (induction k arbitrary: ps cur rs)
  case 0
  show ?case by simp
next
  case (Suc k)
  show ?case
  proof (cases "length ps < 2")
    case True
    then show ?thesis by simp
  next
    case False
    then have n: "0 < length ps" by (cases ps) simp_all
    show ?thesis
    proof (cases rs)
      case Nil
      then show ?thesis using False by simp
    next
      case (Cons r1 rs1)
      note rs = this
      show ?thesis
      proof (cases rs1)
        case Nil
        then show ?thesis using False rs by simp
      next
        case (Cons r2 rs2)
        note rs1 = this
        have u: "0 \<le> r1" "r1 < 1" "0 \<le> r2" "r2 < 1" "unitDraws rs2"
          using Suc.prems rs rs1 by simp_all
        show ?thesis
        proof (cases "redraw (length ps) (randIndex (length ps) r1) (randIndex (length ps) r2) rs2")
          case None
          then show ?thesis using False rs rs1 by (simp add: Let_def)
        next
          case (Some res)
          obtain idx2 rs3 where res: "res = (idx2, rs3)" by (cases res)
          have rd: "idx2 = randIndex (length ps) r2 \<or> idx2 \<in> randIndex (length ps) ` set rs2"
            and sub: "set rs3 \<subseteq> set rs2"
            using redraw_Some [OF Some [unfolded res]] by auto
          have r1: "0 \<le> randIndex (length ps) r1 \<and> randIndex (length ps) r1 < int (length ps)"
            by (rule randIndex_range [OF u(1,2) n])
          have "0 \<le> idx2 \<and> idx2 < int (length ps)"
            using rd randIndex_range [OF u(3,4) n] randIndex_range [OF _ _ n] u(5)
            by (auto simp: unitDraws_def)
          moreover have "unitDraws rs3"
            by (rule unitDraws_subset [OF u(5) sub])
          ultimately show ?thesis
            using False rs rs1 Some res r1 Suc.IH
            by (auto simp: Let_def split: prod.splits)
        qed
      qed
    qed
  qed
qed

lemma redraw_rounds:
  "Suc k \<le> drawRounds n (Some idx1) (r2 # rs) \<Longrightarrow>
   \<exists>j rs'. redraw n idx1 (randIndex n r2) rs = Some (j, rs') \<and> k \<le> drawRounds n None rs'"
proof (induction rs arbitrary: r2)
  case Nil
  then show ?case by (auto split: if_splits)
next
  case (Cons r rs)
  show ?case
  proof (cases "randIndex n r2 = idx1")
    case True
    then have "Suc k \<le> drawRounds n (Some idx1) (r # rs)"
      using Cons.prems by simp
    from Cons.IH [OF this] show ?thesis using True by simp
  next
    case False
    then show ?thesis using Cons.prems by simp
  qed
qed

lemma localSearch_returns:
  assumes "unitDraws rs" "length ps < 2 \<or> k \<le> drawRounds (length ps) None rs"
  shows "\<exists>ps'. localSearch k syn recentPairs ps cur rs = Returned ps'"
  using assms
proof (induction k arbitrary: ps cur rs)
  case 0
  show ?case by simp
next
  case (Suc k)
  show ?case
  proof (cases "length ps < 2")
    case True
    then show ?thesis by simp
  next
    case False
    then have rounds: "Suc k \<le> drawRounds (length ps) None rs"
      using Suc.prems by simp
    then obtain r1 r2 rs2 where rs: "rs = r1 # r2 # rs2"
      by (cases rs; cases "tl rs") auto
    from rounds rs
    have "Suc k \<le> drawRounds (length ps) (Some (randIndex (length ps) r1)) (r2 # rs2)"
      by simp
    from redraw_rounds [OF this] obtain idx2 rs3 where
      rd: "redraw (length ps) (randIndex (length ps) r1) (randIndex (length ps) r2) rs2
             = Some (idx2, rs3)"
      and more: "k \<le> drawRounds (length ps) None rs3"
      by blast
    have u3: "unitDraws rs3"
      using redraw_Some [OF rd] Suc.prems(1) rs
      by (auto intro: unitDraws_subset [of rs2])
    obtain ps1 cur1 where
      sw: "trySwap ps cur syn recentPairs (nat (randIndex (length ps) r1)) (nat idx2) = (ps1, cur1)"
      by (cases "trySwap ps cur syn recentPairs (nat (randIndex (length ps) r1)) (nat idx2)")
    have len: "length ps1 = length ps" by (rule trySwap_length [OF sw])
    from Suc.IH [OF u3, of ps1 cur1] more len
    obtain ps' where rest: "localSearch k syn recentPairs ps1 cur1 rs3 = Returned ps'"
      by auto
    have "localSearch (Suc k) syn recentPairs ps cur rs \<noteq> Threw ''TypeError''"
      by (rule localSearch_no_throw [OF Suc.prems(1)])
    then show ?thesis
      using False rs rd sw rest by (auto simp: Let_def split: if_splits)
  qed
qed

subsection \<open>The pair optimizer never regresses\<close>

lemma greedySeed_uneven:
  "greedySeed unevenPool Map.empty {} =
     [mkPair (formOf ''A'' 1) (formOf ''D'' (39 / 10)) (525 / 100),
      mkPair (formOf ''B'' (24 / 10)) (formOf ''C'' (25 / 10)) (1319 / 100)]"
  by (simp add: greedySeed_def unevenPool_def formOf_def getPairingCost_def synergyLookup_def
      or_num_def config_defs mkPair_def Let_def power2_eq_square)

lemma drawRounds_alternating: "drawRounds 2 None alternatingDraws = 200"
  by (simp add: alternatingDraws_def randIndex_def eval_nat_numeral)

lemma unitDraws_alternating: "unitDraws alternatingDraws"
  by (simp add: alternatingDraws_def unitDraws_def)

lemma redraw_distinct: "idx1 \<noteq> idx2 \<Longrightarrow> redraw n idx1 idx2 rs = Some (idx2, rs)"
  by (cases rs) simp_all

lemma localSearch_idle:
  assumes "length ps = 2" "trySwap ps cur syn recentPairs 0 1 = (ps, cur)"
  shows "localSearch k syn recentPairs ps cur (concat (replicate k [0, 1 / 2])) = Returned ps"
proof (induction k)
  case 0
  show ?case by simp
next
  case (Suc k)
  then show ?case
    using assms by (simp add: randIndex_def redraw_distinct)
qed

lemma optimalPairs_uneven:
  "generateOptimalPairs unevenPool Map.empty {} alternatingDraws =
     Returned [mkPair (formOf ''A'' 1) (formOf ''C'' (25 / 10)) (1001 / 100),
               mkPair (formOf ''B'' (24 / 10)) (formOf ''D'' (39 / 10)) (1 / 100)]"
proof -
  let ?ps = "[mkPair (formOf ''A'' 1) (formOf ''C'' (25 / 10)) (1001 / 100),
              mkPair (formOf ''B'' (24 / 10)) (formOf ''D'' (39 / 10)) (1 / 100)]"
  have first: "trySwap (greedySeed unevenPool Map.empty {}) (1844 / 100) Map.empty {} 0 1
                 = (?ps, 1002 / 100)"
    by (simp add: greedySeed_uneven trySwap_def formOf_def getPairingCost_def synergyLookup_def
        or_num_def config_defs mkPair_def Let_def power2_eq_square)
  have idle: "trySwap ?ps (1002 / 100) Map.empty {} 0 1 = (?ps, 1002 / 100)"
    by (simp add: trySwap_def formOf_def getPairingCost_def synergyLookup_def
        or_num_def config_defs mkPair_def Let_def power2_eq_square)
  have rest: "localSearch 199 Map.empty {} ?ps (1002 / 100) (concat (replicate 199 [0, 1 / 2]))
                = Returned ?ps"
    by (rule localSearch_idle [OF _ idle]) simp
  have draws: "alternatingDraws = 0 # 1 / 2 # concat (replicate 199 [0, 1 / 2])"
    by (simp add: alternatingDraws_def eval_nat_numeral)
  have total: "totalCost (greedySeed unevenPool Map.empty {}) = 1844 / 100"
    by (simp add: greedySeed_uneven totalCost_def)
  have len: "length (greedySeed unevenPool Map.empty {}) = 2"
    by (simp add: greedySeed_uneven)
  have "localSearch (Suc 199) Map.empty {} (greedySeed unevenPool Map.empty {}) (1844 / 100)
          (0 # 1 / 2 # concat (replicate 199 [0, 1 / 2])) = Returned ?ps"
    unfolding localSearch.simps len
    using first rest by (simp add: randIndex_def redraw_distinct)
  then show ?thesis
    by (simp add: generateOptimalPairs_def total draws)
qed

text \<open>
  Claim C5. Whatever values \<^verbatim>\<open>Math.random()\<close> returns, the total cost of the pairs that
  the pair optimizer returns is at most the total cost of the greedy seeding. One
  iteration on two different indices either leaves the pairs and the recorded total as
  they are or makes the total strictly smaller, and the recorded total is the sum of
  the costs of the pairs. The optimizer returns when the random values lie in \<open>[0, 1)\<close>
  and hold 200 selections of two different indices (or there are fewer than two pairs).
\<close>

theorem local_search_never_regresses:
  "(\<forall>ps. generateOptimalPairs pool syn recentPairs rs = Returned ps \<longrightarrow>
          sum_list (map cost ps) \<le> sum_list (map cost (greedySeed pool syn recentPairs)))
   \<and> (\<forall>ps cur idx1 idx2 ps' cur'.
          idx1 < length ps \<and> idx2 < length ps \<and> idx1 \<noteq> idx2 \<and> cur = sum_list (map cost ps)
          \<and> trySwap ps cur syn recentPairs idx1 idx2 = (ps', cur') \<longrightarrow>
          cur' = sum_list (map cost ps') \<and> ((ps' = ps \<and> cur' = cur) \<or> cur' < cur))
   \<and> (unitDraws rs
       \<and> (length (greedySeed pool syn recentPairs) < 2
           \<or> 200 \<le> drawRounds (length (greedySeed pool syn recentPairs)) None rs) \<longrightarrow>
       (\<exists>ps. generateOptimalPairs pool syn recentPairs rs = Returned ps))"
proof (intro conjI allI impI)
  fix ps
  assume "generateOptimalPairs pool syn recentPairs rs = Returned ps"
  then show "sum_list (map cost ps) \<le> sum_list (map cost (greedySeed pool syn recentPairs))"
    using localSearch_cost [OF totalCost_sum, of 200 syn recentPairs
        "greedySeed pool syn recentPairs" rs ps]
    by (simp add: generateOptimalPairs_def Let_def)
next
  fix ps cur idx1 idx2 ps' cur'
  assume a: "idx1 < length ps \<and> idx2 < length ps \<and> idx1 \<noteq> idx2 \<and> cur = sum_list (map cost ps)
             \<and> trySwap ps cur syn recentPairs idx1 idx2 = (ps', cur')"
  then have r: "cur' = sum_list (map cost ps') \<and> length ps' = length ps
                \<and> ((ps' = ps \<and> cur' = cur) \<or> cur' < cur)"
    using trySwap_cost [of idx1 ps idx2 cur syn recentPairs ps' cur'] by blast
  from r show "cur' = sum_list (map cost ps')" by blast
  from r show "(ps' = ps \<and> cur' = cur) \<or> cur' < cur" by blast
next
  assume "unitDraws rs
       \<and> (length (greedySeed pool syn recentPairs) < 2
           \<or> 200 \<le> drawRounds (length (greedySeed pool syn recentPairs)) None rs)"
  then show "\<exists>ps. generateOptimalPairs pool syn recentPairs rs = Returned ps"
    using localSearch_returns [of rs "greedySeed pool syn recentPairs" 200 syn recentPairs]
    by (simp add: generateOptimalPairs_def Let_def)
qed

theorem local_search_never_regresses_witness:
  "generateOptimalPairs unevenPool Map.empty {} alternatingDraws =
     Returned [mkPair (formOf ''A'' 1) (formOf ''C'' (25 / 10)) (1001 / 100),
               mkPair (formOf ''B'' (24 / 10)) (formOf ''D'' (39 / 10)) (1 / 100)]
   \<and> sum_list (map cost [mkPair (formOf ''A'' 1) (formOf ''C'' (25 / 10)) (1001 / 100),
                          mkPair (formOf ''B'' (24 / 10)) (formOf ''D'' (39 / 10)) (1 / 100)])
       \<le> sum_list (map cost (greedySeed unevenPool Map.empty {}))
   \<and> sum_list (map cost (greedySeed unevenPool Map.empty {})) = 1844 / 100
   \<and> unitDraws alternatingDraws
   \<and> 200 \<le> drawRounds (length (greedySeed unevenPool Map.empty {})) None alternatingDraws"
proof -
  have len: "length (greedySeed unevenPool Map.empty {}) = 2"
    by (simp add: greedySeed_uneven)
  have total: "sum_list (map cost (greedySeed unevenPool Map.empty {})) = 1844 / 100"
    by (simp add: greedySeed_uneven)
  show ?thesis
    using local_search_never_regresses [of unevenPool Map.empty "{}" alternatingDraws]
    unfolding len
    by (simp add: optimalPairs_uneven total drawRounds_alternating unitDraws_alternating)
qed

subsection \<open>The invariant of pairs\<close>

lemma greedyPairs_invariant: "\<forall>p\<in>set (greedyPairs used syn recentPairs xs). pairInvariant p"
  by (induction xs arbitrary: used) (auto split: option.splits)

lemma candidatePairsOf_invariant: "\<forall>p\<in>set (candidatePairsOf syn xs). pairInvariant p"
  by (induction xs) auto

lemma findTop_members:
  assumes "m \<in> set (findTopMatchupsForTeam fixedTeamIds poolIds allPlayers allMatches)"
  shows "\<exists>p1 p2 syn recentMatches candidate xs.
           candidate \<in> set (candidatePairsOf syn xs)
           \<and> m = rankMatchup (mkPair p1 p2 0) p1 p2 syn recentMatches candidate"
proof (cases "calculatePlayerForms allPlayers allMatches (fst fixedTeamIds)")
  case None
  then show ?thesis using assms by (simp add: findTopMatchupsForTeam_def)
next
  case (Some p1)
  note p1 = this
  show ?thesis
  proof (cases "calculatePlayerForms allPlayers allMatches (snd fixedTeamIds)")
    case None
    then show ?thesis using assms p1 by (simp add: findTopMatchupsForTeam_def)
  next
    case (Some p2)
    let ?rank = "rankMatchup (mkPair p1 p2 0) p1 p2 (calculateSynergyMatrix allMatches)
                   (recentMatchKeys (lastMatches 50 allMatches))"
    let ?cands = "candidatePairsOf (calculateSynergyMatrix allMatches)
                    (List.map_filter (calculatePlayerForms allPlayers allMatches) poolIds)"
    have "m \<in> set (take 10 (sort_key (\<lambda>m. (handicapPoints m, matchCost m)) (map ?rank ?cands)))"
      using assms p1 Some by (simp add: findTopMatchupsForTeam_def Let_def)
    then have "m \<in> set (sort_key (\<lambda>m. (handicapPoints m, matchCost m)) (map ?rank ?cands))"
      by (rule in_set_takeD)
    then have "m \<in> ?rank ` set ?cands"
      by simp
    then show ?thesis by blast
  qed
qed

lemma rankMatchup_teams [simp]:
  "g_team1 (rankMatchup fixedTeam p1 p2 syn recentMatches candidate) = fixedTeam"
  "g_team2 (rankMatchup fixedTeam p1 p2 syn recentMatches candidate) = candidate"
  "handicap (rankMatchup fixedTeam p1 p2 syn recentMatches candidate)
     = fixedTeamHandicap fixedTeam candidate"
  by (simp_all add: rankMatchup_def Let_def)

lemma buildTeam_shape:
  assumes "buildTeam playerForms ids = Some t"
  shows "if secondResolved playerForms ids then pairInvariant t else singlesShape t"
  using assms
  by (auto simp: buildTeam_def secondResolved_def pairInvariant_def singlesShape_def Let_def
      split: option.splits if_splits)

text \<open>
  Claim C6, as the code has it. Every pair of the greedy seeding, every pair the pair
  optimizer returns after its swaps, the fixed team and every candidate of
  \<^verbatim>\<open>findTopMatchupsForTeam\<close>, and every doubles team of \<^verbatim>\<open>predictMatchOutcome\<close> has a
  structure that is not negative and the sum of the effective ratings of its two slots
  as strength. A singles team of \<^verbatim>\<open>predictMatchOutcome\<close> has structure 0 and the rating
  of its one player as strength, with that player in both slots.
\<close>

theorem pair_invariant:
  "(\<forall>p\<in>set (greedySeed pool syn recentPairs). pairInvariant p)
   \<and> (\<forall>ps. generateOptimalPairs pool syn recentPairs rs = Returned ps \<longrightarrow>
         (\<forall>p\<in>set ps. pairInvariant p))
   \<and> (\<forall>m\<in>set (findTopMatchupsForTeam fixedTeamIds poolIds allPlayers allMatches).
         pairInvariant (g_team1 m) \<and> pairInvariant (g_team2 m))
   \<and> (\<forall>m. predictMatchOutcome team1Ids team2Ids allPlayers allMatches = Some m \<longrightarrow>
         (if secondResolved (calculatePlayerForms allPlayers allMatches) team1Ids
          then pairInvariant (g_team1 m) else singlesShape (g_team1 m))
         \<and> (if secondResolved (calculatePlayerForms allPlayers allMatches) team2Ids
            then pairInvariant (g_team2 m) else singlesShape (g_team2 m)))"
proof (intro conjI allI impI ballI)
  fix p
  assume "p \<in> set (greedySeed pool syn recentPairs)"
  then show "pairInvariant p"
    using greedyPairs_invariant by (simp add: greedySeed_def)
next
  fix ps p
  assume "generateOptimalPairs pool syn recentPairs rs = Returned ps" "p \<in> set ps"
  then show "pairInvariant p"
    using localSearch_invariant [of "greedySeed pool syn recentPairs" 200 syn recentPairs
        "totalCost (greedySeed pool syn recentPairs)" rs ps]
      greedyPairs_invariant
    by (simp add: generateOptimalPairs_def greedySeed_def Let_def)
next
  fix m
  assume m: "m \<in> set (findTopMatchupsForTeam fixedTeamIds poolIds allPlayers allMatches)"
  from findTop_members [OF m] candidatePairsOf_invariant
  show "pairInvariant (g_team1 m)" and "pairInvariant (g_team2 m)"
    by auto
next
  fix m
  assume m: "predictMatchOutcome team1Ids team2Ids allPlayers allMatches = Some m"
  then obtain t1 t2 where
    t1: "buildTeam (calculatePlayerForms allPlayers allMatches) team1Ids = Some t1"
    and t2: "buildTeam (calculatePlayerForms allPlayers allMatches) team2Ids = Some t2"
    and g: "g_team1 m = t1" "g_team2 m = t2"
    by (auto simp: predictMatchOutcome_def Let_def split: if_splits option.splits)
  show "if secondResolved (calculatePlayerForms allPlayers allMatches) team1Ids
        then pairInvariant (g_team1 m) else singlesShape (g_team1 m)"
    using buildTeam_shape [OF t1] g by simp
  show "if secondResolved (calculatePlayerForms allPlayers allMatches) team2Ids
        then pairInvariant (g_team2 m) else singlesShape (g_team2 m)"
    using buildTeam_shape [OF t2] g by simp
qed

text \<open>
  Claim C6 as stated fails for a singles team of the predictor: player A of rating 6
  fills both slots, the slots sum to 12, and the strength is 6.
\<close>

theorem pair_invariant_counterexample:
  "map_option (\<lambda>m. pairInvariant (g_team1 m))
     (predictMatchOutcome [''A''] [''B'', ''C''] mixedRoster []) = Some False"
  by (simp add: predictMatchOutcome_def buildTeam_def pairInvariant_def mixedRoster_def form_eval)


lemma clubRoster_forms:
  "calculatePlayerForms clubRoster [] ''A'' = Some (formOf ''A'' 4)"
  "calculatePlayerForms clubRoster [] ''B'' = Some (formOf ''B'' 3)"
  "calculatePlayerForms clubRoster [] ''C'' = Some (formOf ''C'' 3)"
  "calculatePlayerForms clubRoster [] ''D'' = Some (formOf ''D'' (25 / 10))"
  by (simp_all add: clubRoster_def formOf_def form_eval)

lemma findTop_club:
  "findTopMatchupsForTeam (''A'', ''B'') [''C'', ''Z'', ''D''] clubRoster [] =
     [\<lparr>g_team1 = mkPair (formOf ''A'' 4) (formOf ''B'' 3) 0,
       g_team2 = mkPair (formOf ''C'' 3) (formOf ''D'' (25 / 10)) (231 / 100),
       matchCost = 358 / 100,
       handicap = Some \<lparr>team = 2, points = 5, reason = 15 / 10\<rparr>,
       analysis = \<lparr>team2Synergy = 0, team2Form = 0, qualityScore = 9642 / 100\<rparr>\<rparr>]"
proof -
  have none: "calculatePlayerForms clubRoster [] ''Z'' = None"
    by (simp add: clubRoster_def form_eval)
  have pool: "List.map_filter (calculatePlayerForms clubRoster []) [''C'', ''Z'', ''D'']
                = [formOf ''C'' 3, formOf ''D'' (25 / 10)]"
    by (simp add: List.map_filter_def clubRoster_forms none)
  show ?thesis
    unfolding findTopMatchupsForTeam_def Let_def fst_conv snd_conv clubRoster_forms pool
      option.case
    by (simp add: rankMatchup_def fixedTeamHandicap_def getPairingCost_def synergyLookup_def
        or_num_def config_defs mkPair_def formOf_def Let_def power2_eq_square toFixed2_def
        calculateSynergyMatrix_def pairStats_def lastMatches_def recentMatchKeys_def)
qed

lemma predict_mixed:
  "predictMatchOutcome [''A''] [''B'', ''C''] mixedRoster [] =
     Some \<lparr>g_team1 = \<lparr>player1 = formOf ''A'' 6, player2 = formOf ''A'' 6, strength = 6,
                       pair_structure = 0, cost = 0\<rparr>,
            g_team2 = mkPair (formOf ''B'' 3) (formOf ''C'' 2) 0,
            matchCost = 0,
            handicap = Some \<lparr>team = 2, points = 3, reason = 1\<rparr>,
            analysis = \<lparr>team2Synergy = 0, team2Form = 0, qualityScore = 50\<rparr>\<rparr>"
  by (simp add: predictMatchOutcome_def buildTeam_def predictorHandicap_def hasWeakLink_def
      mixedRoster_def config_defs form_eval formOf_def mkPair_def)

theorem pair_invariant_witness:
  "pairInvariant (mkPair (formOf ''A'' 1) (formOf ''D'' (39 / 10)) (525 / 100))
   \<and> pairInvariant (mkPair (formOf ''B'' (24 / 10)) (formOf ''D'' (39 / 10)) (1 / 100))
   \<and> pairInvariant (mkPair (formOf ''C'' 3) (formOf ''D'' (25 / 10)) (231 / 100))
   \<and> singlesShape \<lparr>player1 = formOf ''A'' 6, player2 = formOf ''A'' 6, strength = 6,
                     pair_structure = 0, cost = 0\<rparr>
   \<and> pairInvariant (mkPair (formOf ''B'' 3) (formOf ''C'' 2) 0)"
proof -
  have single: "\<not> secondResolved (calculatePlayerForms mixedRoster []) [''A'']"
    by (simp add: secondResolved_def)
  have double: "secondResolved (calculatePlayerForms mixedRoster []) [''B'', ''C'']"
    by (simp add: secondResolved_def mixedRoster_def form_eval)
  show ?thesis
    using pair_invariant [of unevenPool Map.empty "{}" alternatingDraws "(''A'', ''B'')"
        "[''C'', ''Z'', ''D'']" clubRoster "[]" "[''A'']" "[''B'', ''C'']"]
      pair_invariant [of "[]" Map.empty "{}" "[]" "(''A'', ''B'')" "[]" mixedRoster "[]"
        "[''A'']" "[''B'', ''C'']"]
    unfolding greedySeed_uneven optimalPairs_uneven findTop_club predict_mixed
    using single double
    by simp
qed

subsection \<open>The handicap step function\<close>

lemma steps_chain:
  "(if diff > 3 / 10 \<and> diff \<le> 6 / 10 then 1
    else if diff > 6 / 10 \<and> diff \<le> 9 / 10 then 2
    else if diff > 9 / 10 \<and> diff \<le> 12 / 10 then 3
    else if diff > 12 / 10 then 4
    else 0) = stepPoints diff"
proof -
  consider "diff \<le> 3 / 10" | "3 / 10 < diff" "diff \<le> 6 / 10" | "6 / 10 < diff" "diff \<le> 9 / 10"
    | "9 / 10 < diff" "diff \<le> 12 / 10" | "12 / 10 < diff"
    by linarith
  then show ?thesis
  proof cases
    case 1
    then show ?thesis by (simp add: stepPoints_def)
  next
    case 2
    then show ?thesis by (simp add: stepPoints_def)
  next
    case 3
    then show ?thesis by (simp add: stepPoints_def)
  next
    case 4
    then show ?thesis by (simp add: stepPoints_def)
  next
    case 5
    then show ?thesis by (simp add: stepPoints_def)
  qed
qed

lemma stepPoints_le: "stepPoints diff \<le> 4"
  by (simp add: stepPoints_def)

lemma bonus_rule:
  assumes "g_team1 m = t1" "g_team2 m = t2"
    and "handicap m =
           (let points1 = (if stepPoints \<bar>strength t1 - strength t2\<bar> > 0 \<and> weak
                           then stepPoints \<bar>strength t1 - strength t2\<bar> + 1
                           else stepPoints \<bar>strength t1 - strength t2\<bar>)
            in if points1 > 0 then Some \<lparr>team = w, points = points1, reason = r\<rparr> else None)"
  shows "handicapRule m"
proof -
  let ?b = "stepPoints \<bar>strength t1 - strength t2\<bar>"
  have le: "?b \<le> 4" by (rule stepPoints_le)
  show ?thesis
  proof (cases "?b = 0")
    case True
    then show ?thesis
      using assms by (simp add: handicapRule_def handicapPoints_def Let_def)
  next
    case False
    then show ?thesis
      using assms le by (cases weak) (simp_all add: handicapRule_def handicapPoints_def Let_def)
  qed
qed

lemma schedulerHandicap_rule:
  "g_team1 m = t1 \<Longrightarrow> g_team2 m = t2 \<Longrightarrow> handicap m = schedulerHandicap t1 t2 \<Longrightarrow>
   handicapRule m"
  by (rule bonus_rule [where weak = "effectiveRating (player1 (if (if strength t1 < strength t2
          then 1 else 2) = (1::nat) then t1 else t2)) < SUPPORT_CUTOFF
        \<or> effectiveRating (player2 (if (if strength t1 < strength t2
          then 1 else 2) = (1::nat) then t1 else t2)) < SUPPORT_CUTOFF"])
    (simp_all only: schedulerHandicap_def steps_chain Let_def)

lemma fixedTeamHandicap_rule:
  "g_team1 m = t1 \<Longrightarrow> g_team2 m = t2 \<Longrightarrow> handicap m = fixedTeamHandicap t1 t2 \<Longrightarrow>
   handicapRule m"
  by (rule bonus_rule [where weak = "effectiveRating (player1 (if (if strength t1 < strength t2
          then 1 else 2) = (1::nat) then t1 else t2)) < SUPPORT_CUTOFF
        \<or> effectiveRating (player2 (if (if strength t1 < strength t2
          then 1 else 2) = (1::nat) then t1 else t2)) < SUPPORT_CUTOFF"])
    (simp_all only: fixedTeamHandicap_def steps_chain Let_def)

lemma predictorHandicap_rule:
  "g_team1 m = t1 \<Longrightarrow> g_team2 m = t2 \<Longrightarrow> handicap m = predictorHandicap ids t1 t2 \<Longrightarrow>
   handicapRule m"
  by (rule bonus_rule [where weak = "hasWeakLink ids (if (if strength t1 < strength t2
          then 1 else 2) = (1::nat) then t1 else t2)"])
    (simp_all only: predictorHandicap_def steps_chain Let_def)

lemma scheduleLoop_members:
  "m \<in> set (scheduleLoop recentMatches pool) \<Longrightarrow> \<exists>t1 t2 c. m = scheduledMatch t1 t2 c"
proof (induction recentMatches pool rule: scheduleLoop.induct)
  case (1 recentMatches pool)
  show ?case
  proof (cases "2 \<le> length pool")
    case False
    then show ?thesis using "1.prems" by (subst (asm) scheduleLoop.simps) simp
  next
    case True
    note long = this
    show ?thesis
    proof (cases "bestOpponent (hd pool) recentMatches 0 None (tl pool)")
      case None
      then have "m \<in> set (scheduleLoop recentMatches (tl pool))"
        using "1.prems" long by (subst (asm) scheduleLoop.simps) (simp add: Let_def)
      then show ?thesis
        using "1.IH"(1) [OF long refl refl None] by blast
    next
      case (Some best)
      obtain i c where best: "best = (i, c)" by (cases best)
      have "m = scheduledMatch (hd pool) (tl pool ! i) c
            \<or> m \<in> set (scheduleLoop recentMatches (removeAt i (tl pool)))"
        using "1.prems" long Some best
        by (subst (asm) scheduleLoop.simps) (auto simp: Let_def)
      then show ?thesis
        using "1.IH"(2) [OF long refl refl Some best [symmetric]] by blast
    qed
  qed
qed


lemma scheduleLoop_two:
  "scheduleLoop recentMatches [t1, t2] = [scheduledMatch t1 t2 (matchupCost t1 t2 recentMatches)]"
proof -
  have "scheduleLoop recentMatches [] = []"
    by (subst scheduleLoop.simps) simp
  then show ?thesis
    by (subst scheduleLoop.simps) (simp add: Let_def removeAt_def)
qed

lemma generateMatchups_uneven:
  "generateMatchups [mkPair (formOf ''A'' 1) (formOf ''C'' (25 / 10)) (1001 / 100),
                     mkPair (formOf ''B'' (24 / 10)) (formOf ''D'' (39 / 10)) (1 / 100)] {} =
     [\<lparr>g_team1 = mkPair (formOf ''B'' (24 / 10)) (formOf ''D'' (39 / 10)) (1 / 100),
       g_team2 = mkPair (formOf ''A'' 1) (formOf ''C'' (25 / 10)) (1001 / 100),
       matchCost = 784 / 100,
       handicap = Some \<lparr>team = 2, points = 5, reason = 28 / 10\<rparr>,
       analysis = \<lparr>team2Synergy = 0, team2Form = 0, qualityScore = 9216 / 100\<rparr>\<rparr>]"
proof -
  have sorted: "sort_key (\<lambda>t. - strength t)
                  [mkPair (formOf ''A'' 1) (formOf ''C'' (25 / 10)) (1001 / 100),
                   mkPair (formOf ''B'' (24 / 10)) (formOf ''D'' (39 / 10)) (1 / 100)]
                = [mkPair (formOf ''B'' (24 / 10)) (formOf ''D'' (39 / 10)) (1 / 100),
                   mkPair (formOf ''A'' 1) (formOf ''C'' (25 / 10)) (1001 / 100)]"
    by (simp add: mkPair_def formOf_def)
  show ?thesis
    unfolding generateMatchups_def sorted scheduleLoop_two
    by (simp add: scheduledMatch_def schedulerHandicap_def matchupCost_def mkPair_def formOf_def
        config_defs toFixed2_def Let_def power2_eq_square)
qed

text \<open>
  Claim C8. In every match proposal of the match scheduler, of
  \<^verbatim>\<open>findTopMatchupsForTeam\<close> and of \<^verbatim>\<open>predictMatchOutcome\<close>, the handicap points are the
  step points of \<open>diff = |strength1 - strength2|\<close> (0 up to 0.3, 1 up to 0.6, 2 up to 0.9,
  3 up to 1.2, and 4 above, however large) plus at most one bonus point, they lie
  between 0 and 5, and the handicap record is present exactly when they are above 0.
\<close>

theorem handicap_step_function:
  "(\<forall>m\<in>set (generateMatchups teams recentMatches). handicapRule m)
   \<and> (\<forall>m\<in>set (findTopMatchupsForTeam fixedTeamIds poolIds allPlayers allMatches).
         handicapRule m)
   \<and> (\<forall>m. predictMatchOutcome team1Ids team2Ids allPlayers allMatches = Some m \<longrightarrow>
         handicapRule m)"
proof (intro conjI ballI allI impI)
  fix m
  assume "m \<in> set (generateMatchups teams recentMatches)"
  then have "\<exists>t1 t2 c. m = scheduledMatch t1 t2 c"
    unfolding generateMatchups_def by (rule scheduleLoop_members)
  then obtain t1 t2 c where "m = scheduledMatch t1 t2 c"
    by blast
  then show "handicapRule m"
    by (intro schedulerHandicap_rule [of m t1 t2]) (simp_all add: scheduledMatch_def)
next
  fix m
  assume "m \<in> set (findTopMatchupsForTeam fixedTeamIds poolIds allPlayers allMatches)"
  from findTop_members [OF this] obtain p1 p2 syn recent candidate where
    "m = rankMatchup (mkPair p1 p2 0) p1 p2 syn recent candidate"
    by blast
  then show "handicapRule m"
    by (intro fixedTeamHandicap_rule [of m "mkPair p1 p2 0" candidate]) simp_all
next
  fix m
  assume "predictMatchOutcome team1Ids team2Ids allPlayers allMatches = Some m"
  then obtain t1 t2 where
    "g_team1 m = t1" "g_team2 m = t2" "handicap m = predictorHandicap team1Ids t1 t2"
    by (auto simp: predictMatchOutcome_def Let_def split: if_splits option.splits)
  then show "handicapRule m"
    by (rule predictorHandicap_rule)
qed

theorem handicap_step_function_witness:
  "handicapRule
     \<lparr>g_team1 = mkPair (formOf ''B'' (24 / 10)) (formOf ''D'' (39 / 10)) (1 / 100),
      g_team2 = mkPair (formOf ''A'' 1) (formOf ''C'' (25 / 10)) (1001 / 100),
      matchCost = 784 / 100,
      handicap = Some \<lparr>team = 2, points = 5, reason = 28 / 10\<rparr>,
      analysis = \<lparr>team2Synergy = 0, team2Form = 0, qualityScore = 9216 / 100\<rparr>\<rparr>
   \<and> handicapRule
     \<lparr>g_team1 = mkPair (formOf ''A'' 4) (formOf ''B'' 3) 0,
      g_team2 = mkPair (formOf ''C'' 3) (formOf ''D'' (25 / 10)) (231 / 100),
      matchCost = 358 / 100,
      handicap = Some \<lparr>team = 2, points = 5, reason = 15 / 10\<rparr>,
      analysis = \<lparr>team2Synergy = 0, team2Form = 0, qualityScore = 9642 / 100\<rparr>\<rparr>
   \<and> handicapRule
     \<lparr>g_team1 = \<lparr>player1 = formOf ''A'' 6, player2 = formOf ''A'' 6, strength = 6,
                 pair_structure = 0, cost = 0\<rparr>,
      g_team2 = mkPair (formOf ''B'' 3) (formOf ''C'' 2) 0,
      matchCost = 0,
      handicap = Some \<lparr>team = 2, points = 3, reason = 1\<rparr>,
      analysis = \<lparr>team2Synergy = 0, team2Form = 0, qualityScore = 50\<rparr>\<rparr>"
  using handicap_step_function
      [of "[mkPair (formOf ''A'' 1) (formOf ''C'' (25 / 10)) (1001 / 100),
            mkPair (formOf ''B'' (24 / 10)) (formOf ''D'' (39 / 10)) (1 / 100)]" "{}"
          "(''A'', ''B'')" "[''C'', ''Z'', ''D'']" clubRoster "[]" "[''A'']" "[''B'', ''C'']"]
    handicap_step_function
      [of "[]" "{}" "(''A'', ''B'')" "[]" mixedRoster "[]" "[''A'']" "[''B'', ''C'']"]
  unfolding generateMatchups_uneven findTop_club predict_mixed
  by simp

subsection \<open>The main entry point\<close>

lemma initForms_id: "initForms ps k = Some f \<Longrightarrow> pf_id f = k"
proof -
  assume a: "initForms ps k = Some f"
  then have ne: "filter (\<lambda>q. p_id q = k) ps \<noteq> []"
    by (auto simp: initForms_lookup split: if_splits)
  then have "last (filter (\<lambda>q. p_id q = k) ps) \<in> set (filter (\<lambda>q. p_id q = k) ps)"
    by (rule last_in_set)
  then have "p_id (last (filter (\<lambda>q. p_id q = k) ps)) = k" by simp
  then show ?thesis
    using a ne by (auto simp: initForms_lookup initForm_def)
qed

lemma keyed_addForm: "keyed st \<Longrightarrow> keyed (addForm st a d)"
  by (auto simp: keyed_def addForm_lookup split: if_splits)

lemma keyed_replayMatch: "keyed st \<Longrightarrow> keyed (replayMatch st m)"
  by (auto simp: replayMatch_def Let_def keyed_addForm split: option.splits)

lemma keyed_foldl: "keyed st \<Longrightarrow> keyed (foldl replayMatch st ms)"
  by (induction ms arbitrary: st) (simp_all add: keyed_replayMatch)

lemma dom_foldl_replay: "dom (foldl replayMatch st ms) = dom st"
  by (induction ms arbitrary: st) simp_all

lemma forms_of_roster:
  assumes "p \<in> set ps"
  shows "\<exists>f. calculatePlayerForms ps ms (p_id p) = Some f \<and> pf_id f = p_id p"
proof -
  have "p_id p \<in> dom (replayAll ps ms)"
    using assms by (simp add: replayAll_def dom_foldl_replay dom_initForms)
  then obtain g where g: "replayAll ps ms (p_id p) = Some g" by blast
  have "keyed (replayAll ps ms)"
    unfolding replayAll_def by (rule keyed_foldl) (simp add: keyed_def initForms_id)
  then have "pf_id g = p_id p" using g by (simp add: keyed_def)
  then show ?thesis
    using g by (simp add: calculatePlayerForms_def finalizeForm_def)
qed

lemma those_map_Some:
  "(\<forall>x\<in>set xs. \<exists>y. f x = Some y) \<Longrightarrow> those (map f xs) = Some (map (\<lambda>x. the (f x)) xs)"
  by (induction xs) auto

lemma pool_of_selected:
  "those (map (\<lambda>p. calculatePlayerForms ps ms (p_id p)) (selectedPlayers sel ps))
     = Some (map (\<lambda>p. the (calculatePlayerForms ps ms (p_id p))) (selectedPlayers sel ps))"
proof (rule those_map_Some, rule ballI)
  fix p
  assume "p \<in> set (selectedPlayers sel ps)"
  then have "p \<in> set ps" by (simp add: selectedPlayers_def)
  from forms_of_roster [OF this, of ms]
  show "\<exists>y. calculatePlayerForms ps ms (p_id p) = Some y" by blast
qed

lemma pool_ids:
  "map pf_id (map (\<lambda>p. the (calculatePlayerForms ps ms (p_id p))) (selectedPlayers sel ps))
     = map p_id (selectedPlayers sel ps)"
proof -
  have "pf_id (the (calculatePlayerForms ps ms (p_id p))) = p_id p"
    if "p \<in> set (selectedPlayers sel ps)" for p
  proof -
    from that have "p \<in> set ps" by (simp add: selectedPlayers_def)
    from forms_of_roster [OF this, of ms] show ?thesis by auto
  qed
  then show ?thesis by simp
qed

lemma run_unfold:
  "runAutoMatchmaker sel ps ms rs =
     (if odd (length (selectedPlayers sel ps)) then Threw oddCountMessage
      else case generateOptimalPairs
                  (map (\<lambda>p. the (calculatePlayerForms ps ms (p_id p))) (selectedPlayers sel ps))
                  (calculateSynergyMatrix ms) (recentPairKeys (lastMatches 20 ms)) rs of
             Returned prs \<Rightarrow>
               Returned \<lparr>players = map (\<lambda>p. the (calculatePlayerForms ps ms (p_id p)))
                                      (selectedPlayers sel ps),
                         pairs = prs,
                         matches = generateMatchups prs (recentMatchKeys (lastMatches 20 ms))\<rparr>
           | Threw e \<Rightarrow> Threw e
           | Starved \<Rightarrow> Starved)"
  by (simp add: runAutoMatchmaker_def Let_def pool_of_selected odd_iff_mod_2_eq_one
      split: outcome.splits)

lemma generateOptimalPairs_no_throw:
  "unitDraws rs \<Longrightarrow> generateOptimalPairs pool syn recentPairs rs \<noteq> Threw e"
  by (simp add: generateOptimalPairs_def Let_def localSearch_no_throw)

lemma generateOptimalPairs_returns:
  assumes "unitDraws rs" "\<forall>n\<ge>2. 200 \<le> drawRounds n None rs"
  shows "\<exists>prs. generateOptimalPairs pool syn recentPairs rs = Returned prs"
proof -
  have "length (greedySeed pool syn recentPairs) < 2
        \<or> 200 \<le> drawRounds (length (greedySeed pool syn recentPairs)) None rs"
    using assms(2) by (cases "length (greedySeed pool syn recentPairs) < 2") simp_all
  then show ?thesis
    unfolding generateOptimalPairs_def Let_def
    by (rule localSearch_returns [OF assms(1)])
qed

lemma localSearch_throws:
  "localSearch k syn recentPairs ps cur rs = Threw e \<Longrightarrow> e = ''TypeError''"
proof (induction k arbitrary: ps cur rs)
  case 0
  then show ?case by simp
next
  case (Suc k)
  show ?case
  proof (cases "length ps < 2")
    case True
    then show ?thesis using Suc.prems by simp
  next
    case False
    then show ?thesis
      using Suc.prems Suc.IH
      by (auto simp: Let_def split: list.splits option.splits if_splits prod.splits)
  qed
qed

lemma drawRounds_replicate:
  assumes "2 \<le> n"
  shows "drawRounds n None (concat (replicate k [0, 1 / 2])) = k"
proof -
  have "1 \<le> real n / 2" using assms by simp
  then have "1 \<le> \<lfloor>real n / 2\<rfloor>" by (simp add: le_floor_iff)
  then have "1 \<le> randIndex n (1 / 2)" by (simp add: randIndex_def)
  moreover have "randIndex n 0 = 0" by (simp add: randIndex_def)
  ultimately have ne: "randIndex n (1 / 2) \<noteq> randIndex n 0" by linarith
  show ?thesis
    by (induction k) (simp_all add: ne)
qed

lemma drawRounds_alternating_any: "\<forall>n\<ge>2. 200 \<le> drawRounds n None alternatingDraws"
  by (simp add: alternatingDraws_def drawRounds_replicate)

lemma selectedPlayers_known:
  "selectedPlayers (filter (\<lambda>i. i \<in> set (map p_id ps)) sel) ps = selectedPlayers sel ps"
  unfolding selectedPlayers_def by (rule filter_cong) auto

text \<open>
  Claim C3. \<^verbatim>\<open>runAutoMatchmaker\<close> throws the error with its message exactly when the number
  of selected players (the roster players whose identifier is in the selection) is odd;
  the error is all that the call yields. For an even number it throws nothing, and it
  returns the players, pairs and matches once the values of \<^verbatim>\<open>Math.random()\<close> hold the
  200 selections of two different indices the local search asks for.
\<close>

theorem odd_selection_rejected:
  "(runAutoMatchmaker sel ps ms rs = Threw oddCountMessage)
     = odd (length (selectedPlayers sel ps))
   \<and> oddCountMessage \<noteq> []
   \<and> (even (length (selectedPlayers sel ps)) \<and> unitDraws rs \<longrightarrow>
        (\<forall>e. runAutoMatchmaker sel ps ms rs \<noteq> Threw e)
        \<and> ((\<forall>n\<ge>2. 200 \<le> drawRounds n None rs) \<longrightarrow>
             (\<exists>pool prs. runAutoMatchmaker sel ps ms rs =
                Returned \<lparr>players = pool, pairs = prs,
                          matches = generateMatchups prs
                                      (recentMatchKeys (lastMatches 20 ms))\<rparr>)))"
proof (intro conjI impI allI)
  let ?pool = "map (\<lambda>p. the (calculatePlayerForms ps ms (p_id p))) (selectedPlayers sel ps)"
  let ?gen = "generateOptimalPairs ?pool (calculateSynergyMatrix ms)
                (recentPairKeys (lastMatches 20 ms)) rs"
  show "(runAutoMatchmaker sel ps ms rs = Threw oddCountMessage)
          = odd (length (selectedPlayers sel ps))"
  proof (cases "odd (length (selectedPlayers sel ps))")
    case True
    then show ?thesis by (simp add: run_unfold)
  next
    case False
    have "?gen \<noteq> Threw oddCountMessage"
    proof
      assume "?gen = Threw oddCountMessage"
      then have "oddCountMessage = ''TypeError''"
        unfolding generateOptimalPairs_def Let_def by (rule localSearch_throws)
      then show False by (simp add: oddCountMessage_def)
    qed
    then show ?thesis
      using False by (auto simp: run_unfold split: outcome.splits)
  qed
  show "oddCountMessage \<noteq> []" by (simp add: oddCountMessage_def)
  {
    assume a: "even (length (selectedPlayers sel ps)) \<and> unitDraws rs"
    fix e
    have "?gen \<noteq> Threw e" for e
      using a by (simp add: generateOptimalPairs_no_throw)
    then show "runAutoMatchmaker sel ps ms rs \<noteq> Threw e"
      using a by (simp add: run_unfold split: outcome.splits)
  }
  {
    assume a: "even (length (selectedPlayers sel ps)) \<and> unitDraws rs"
      and b: "\<forall>n\<ge>2. 200 \<le> drawRounds n None rs"
    from generateOptimalPairs_returns [of rs ?pool "calculateSynergyMatrix ms"
        "recentPairKeys (lastMatches 20 ms)"] a b
    obtain prs where "?gen = Returned prs" by blast
    then show "\<exists>pool prs. runAutoMatchmaker sel ps ms rs =
                Returned \<lparr>players = pool, pairs = prs,
                          matches = generateMatchups prs
                                      (recentMatchKeys (lastMatches 20 ms))\<rparr>"
      using a by (simp add: run_unfold)
  }
qed

theorem odd_selection_rejected_witness:
  "runAutoMatchmaker [''A''] fourPlayers [firstMatch] alternatingDraws = Threw oddCountMessage
   \<and> (\<exists>pool prs. runAutoMatchmaker [''A'', ''B'', ''C'', ''D''] fourPlayers [firstMatch]
                     alternatingDraws =
          Returned \<lparr>players = pool, pairs = prs,
                    matches = generateMatchups prs
                                (recentMatchKeys (lastMatches 20 [firstMatch]))\<rparr>)"
proof -
  have one: "selectedPlayers [''A''] fourPlayers = [ratedPlayer ''A'' 3]"
    by (simp add: selectedPlayers_def fourPlayers_def ratedPlayer_def)
  have four: "selectedPlayers [''A'', ''B'', ''C'', ''D''] fourPlayers = fourPlayers"
    by (simp add: selectedPlayers_def fourPlayers_def ratedPlayer_def)
  have odd1: "odd (length (selectedPlayers [''A''] fourPlayers))"
    by (simp add: one)
  have "even (length fourPlayers)"
    by (simp add: fourPlayers_def)
  then have even4: "even (length (selectedPlayers [''A'', ''B'', ''C'', ''D''] fourPlayers))"
    unfolding four .
  note inst1 = odd_selection_rejected [of "[''A'']" fourPlayers "[firstMatch]" alternatingDraws]
  note inst4 = odd_selection_rejected [of "[''A'', ''B'', ''C'', ''D'']" fourPlayers
      "[firstMatch]" alternatingDraws]
  have "runAutoMatchmaker [''A''] fourPlayers [firstMatch] alternatingDraws
          = Threw oddCountMessage"
    using inst1 [THEN conjunct1] odd1 by (rule iffD2)
  moreover note inst4 [THEN conjunct2, THEN conjunct2, THEN mp,
      OF conjI [OF even4 unitDraws_alternating], THEN conjunct2, THEN mp,
      OF drawRounds_alternating_any]
  ultimately show ?thesis by (rule conjI)
qed

text \<open>
  Claim C10. The identifiers of the selection that no roster player carries make no
  difference to the call. Whenever the number of roster players selected is even the
  call throws nothing, whatever the length of the selection, and it returns under the
  same condition on the random values as above. The players it returns are the forms of
  the roster players selected, in roster order.
\<close>

theorem unknown_selected_ids_dropped:
  "runAutoMatchmaker sel ps ms rs
     = runAutoMatchmaker (filter (\<lambda>i. i \<in> set (map p_id ps)) sel) ps ms rs
   \<and> (even (length (selectedPlayers sel ps)) \<and> unitDraws rs \<longrightarrow>
        (\<forall>e. runAutoMatchmaker sel ps ms rs \<noteq> Threw e)
        \<and> ((\<forall>n\<ge>2. 200 \<le> drawRounds n None rs) \<longrightarrow>
             (\<exists>res. runAutoMatchmaker sel ps ms rs = Returned res)))
   \<and> (\<forall>res. runAutoMatchmaker sel ps ms rs = Returned res \<longrightarrow>
         players res = map (\<lambda>p. the (calculatePlayerForms ps ms (p_id p)))
                         (filter (\<lambda>p. p_id p \<in> set sel) ps)
         \<and> map pf_id (players res) = map p_id (filter (\<lambda>p. p_id p \<in> set sel) ps))"
proof (intro conjI impI allI)
  let ?pool = "map (\<lambda>p. the (calculatePlayerForms ps ms (p_id p))) (selectedPlayers sel ps)"
  let ?gen = "generateOptimalPairs ?pool (calculateSynergyMatrix ms)
                (recentPairKeys (lastMatches 20 ms)) rs"
  show "runAutoMatchmaker sel ps ms rs
          = runAutoMatchmaker (filter (\<lambda>i. i \<in> set (map p_id ps)) sel) ps ms rs"
    by (simp only: run_unfold selectedPlayers_known)
  {
    assume a: "even (length (selectedPlayers sel ps)) \<and> unitDraws rs"
    fix e
    have "?gen \<noteq> Threw e" for e
      using a by (simp add: generateOptimalPairs_no_throw)
    then show "runAutoMatchmaker sel ps ms rs \<noteq> Threw e"
      using a by (simp add: run_unfold split: outcome.splits)
  }
  {
    assume a: "even (length (selectedPlayers sel ps)) \<and> unitDraws rs"
      and b: "\<forall>n\<ge>2. 200 \<le> drawRounds n None rs"
    from generateOptimalPairs_returns [of rs ?pool "calculateSynergyMatrix ms"
        "recentPairKeys (lastMatches 20 ms)"] a b
    obtain prs where "?gen = Returned prs" by blast
    then show "\<exists>res. runAutoMatchmaker sel ps ms rs = Returned res"
      using a by (simp add: run_unfold)
  }
  {
    fix res
    assume r: "runAutoMatchmaker sel ps ms rs = Returned res"
    then have p: "players res = ?pool"
      by (auto simp: run_unfold split: if_splits outcome.splits)
    then show "players res = map (\<lambda>p. the (calculatePlayerForms ps ms (p_id p)))
                               (filter (\<lambda>p. p_id p \<in> set sel) ps)"
      by (simp add: selectedPlayers_def)
    show "map pf_id (players res) = map p_id (filter (\<lambda>p. p_id p \<in> set sel) ps)"
      unfolding p pool_ids by (simp add: selectedPlayers_def)
  }
qed

theorem unknown_selected_ids_dropped_witness:
  "odd (length [''A'', ''Z'', ''B''])
   \<and> (\<exists>res. runAutoMatchmaker [''A'', ''Z'', ''B''] fourPlayers [firstMatch] alternatingDraws
               = Returned res
             \<and> map pf_id (players res) = [''A'', ''B''])"
proof -
  have two: "selectedPlayers [''A'', ''Z'', ''B''] fourPlayers
               = [ratedPlayer ''A'' 3, ratedPlayer ''B'' 3]"
    by (simp add: selectedPlayers_def fourPlayers_def ratedPlayer_def)
  have even2: "even (length (selectedPlayers [''A'', ''Z'', ''B''] fourPlayers))"
    by (simp add: two)
  have ids: "map p_id (filter (\<lambda>p. p_id p \<in> set [''A'', ''Z'', ''B'']) fourPlayers)
               = [''A'', ''B'']"
    by (simp add: fourPlayers_def ratedPlayer_def)
  have odd3: "odd (length [''A'', ''Z'', ''B''])" by simp
  note inst = unknown_selected_ids_dropped [of "[''A'', ''Z'', ''B'']" fourPlayers "[firstMatch]"
        alternatingDraws, unfolded ids]
  note returns = inst [THEN conjunct2, THEN conjunct1, THEN mp,
      OF conjI [OF even2 unitDraws_alternating], THEN conjunct2, THEN mp,
      OF drawRounds_alternating_any]
  from returns obtain res where
    res: "runAutoMatchmaker [''A'', ''Z'', ''B''] fourPlayers [firstMatch] alternatingDraws
            = Returned res" ..
  note inst [THEN conjunct2, THEN conjunct2, THEN spec, THEN mp, OF res, THEN conjunct2]
  with res have "\<exists>res. runAutoMatchmaker [''A'', ''Z'', ''B''] fourPlayers [firstMatch]
                         alternatingDraws = Returned res
                       \<and> map pf_id (players res) = [''A'', ''B'']"
    by (intro exI [of _ res] conjI)
  with odd3 show ?thesis by (rule conjI)
qed

end
